theory Spec2Isabelle
  imports Complex_Main "HOL-Library.Log_Nat"
begin

section \<open>Python values the model needs\<close>

text \<open>
  The module \<open>GIC/CNN/model.py\<close> is Python on top of torch. Exceptions are values of
  \<open>py_error\<close>; a call that can raise returns \<open>py_error + 'a\<close> with \<open>Inl\<close> for the
  exception. Python integers are unbounded and are modelled by \<open>int\<close>.
\<close>

datatype py_error =
    ZeroDivisionError
  | OverflowError
  | TypeError
  | IndexError
  | RuntimeError
  | FileNotFoundError

definition and_then :: "py_error + 'a \<Rightarrow> ('a \<Rightarrow> py_error + 'b) \<Rightarrow> py_error + 'b" where
  "and_then m f = (case m of Inl e \<Rightarrow> Inl e | Inr x \<Rightarrow> f x)"

subsection \<open>True division of integers\<close>

text \<open>
  The source divides with \<open>/\<close>, which on two Python integers is true division: the
  result is a float (IEEE binary64), the exact quotient rounded to the nearest
  representable value with ties going to the even significand; a zero divisor raises
  \<open>ZeroDivisionError\<close> and a quotient that rounds beyond the largest float raises
  \<open>OverflowError\<close>. A finite float is a rational number, so the result is carried as
  the \<open>rat\<close> it denotes.

  \<open>binade a b\<close> is the exponent \<open>e\<close> with \<open>2^e \<le> a / b < 2^(e + 1)\<close> for positive
  \<open>a\<close> and \<open>b\<close>. A binary64 value in that binade is a multiple of \<open>2^(e - 52)\<close>
  (53 significant bits); below the smallest normal exponent \<open>- 1022\<close> the spacing stays
  at \<open>2^(- 1074)\<close> (subnormal numbers). \<open>nearest_binary64 a b\<close> is the quotient of
  positive \<open>a\<close> and \<open>b\<close> rounded to that grid; \<open>true_divide\<close> adds the sign, the zero
  cases and the overflow test.
\<close>

definition round_half_even :: "rat \<Rightarrow> int" where
  "round_half_even x =
     (let n = \<lfloor>x\<rfloor>; d = x - of_int n
      in if d < 1 / 2 then n
         else if 1 / 2 < d then n + 1
         else if even n then n else n + 1)"

definition binade :: "int \<Rightarrow> int \<Rightarrow> int" where
  "binade a b =
     (let d = bitlen a - bitlen b
      in if of_int b * 2 powi d \<le> (of_int a :: rat) then d else d - 1)"

definition nearest_binary64 :: "int \<Rightarrow> int \<Rightarrow> rat" where
  "nearest_binary64 a b =
     (let u = max (binade a b) (- 1022) - 52
      in of_int (round_half_even ((of_int a / of_int b) / 2 powi u)) * 2 powi u)"

definition true_divide :: "int \<Rightarrow> int \<Rightarrow> py_error + rat" where
  "true_divide a b =
     (if b = 0 then Inl ZeroDivisionError
      else if a = 0 then Inr 0
      else
        let r = nearest_binary64 \<bar>a\<bar> \<bar>b\<bar>
        in if 2 ^ 1024 \<le> r then Inl OverflowError
           else Inr (if (a < 0) = (b < 0) then r else - r))"

text \<open>\<open>int(x)\<close> on a float truncates toward zero; \<open>math.ceil(x)\<close> rounds up.\<close>

definition py_int :: "rat \<Rightarrow> int" where
  "py_int x = (if 0 \<le> x then \<lfloor>x\<rfloor> else \<lceil>x\<rceil>)"

definition py_ceil :: "rat \<Rightarrow> int" where
  "py_ceil x = \<lceil>x\<rceil>"

section \<open>Output size of a convolution\<close>

text \<open>\<^verbatim>\<open>def conv_out(size, padding, kernel, stride):
    return int((size + 2*padding - kernel)/stride) + 1\<close>\<close>

definition conv_out :: "int \<Rightarrow> int \<Rightarrow> int \<Rightarrow> int \<Rightarrow> py_error + int" where
  "conv_out sz padding kern stride =
     and_then (true_divide (sz + 2 * padding - kern) stride) (\<lambda>q. Inr (py_int q + 1))"

section \<open>The ConvNet class: dimension bookkeeping\<close>

text \<open>
  What \<open>convolution\<close> and \<open>pooling\<close> return: a torch layer, described by its
  constructor and the arguments the source passes (in the order it passes them), or, from
  \<open>pooling\<close>, the exception object \<open>TypeError("Unknown Type")\<close> handed back as an
  ordinary value. The torch constructors are taken to accept their arguments.
  \<open>Conv2d i o k p\<close> is \<open>nn.Conv2d(i, o, k, padding=p)\<close>; \<open>Linear i o\<close> is
  \<open>nn.Linear(i, o)\<close>. The parameters \<open>size\<close> and \<open>kernel\<close> of the source are
  written \<open>sz\<close> and \<open>kern\<close>.
\<close>

datatype layer =
    Conv2d int int int int
  | MaxPool2d int int
  | AvgPool2d int int
  | LPPool2d int int
  | Linear int int
  | TypeError_object string

text \<open>The attributes of \<open>self\<close> that the two builder methods read and write.\<close>

record convnet_dims =
  img_h :: int
  img_w :: int
  last_out :: int

text \<open>
  \<open>ConvNet.convolution(self, in_size, out_size, kernel=5, stride=1, padding=-1)\<close>.
  An exception ends the call; the value is then the exception alone.
\<close>

definition convolution ::
  "convnet_dims \<Rightarrow> int \<Rightarrow> int \<Rightarrow> int \<Rightarrow> int \<Rightarrow> int \<Rightarrow> py_error + (layer \<times> convnet_dims)" where
  "convolution self in_size out_size kern stride padding =
     (let self = self\<lparr>last_out := out_size\<rparr>
      in if padding = - 1 then
           and_then (true_divide (img_h self) stride) (\<lambda>qh.
           and_then (true_divide (img_w self) stride) (\<lambda>qw.
           and_then (true_divide kern 2) (\<lambda>qk.
             Inr (Conv2d in_size out_size kern (py_int qk),
                  self\<lparr>img_h := py_ceil qh, img_w := py_ceil qw\<rparr>))))
         else
           and_then (true_divide (img_h self + 2 * padding - kern) stride) (\<lambda>qh.
           and_then (true_divide (img_w self + 2 * padding - kern) stride) (\<lambda>qw.
             Inr (Conv2d in_size out_size kern padding,
                  self\<lparr>img_h := py_int qh + 1, img_w := py_int qw + 1\<rparr>))))"

text \<open>
  \<open>ConvNet.pooling(self, kernel=2, stride=2, pool_type='max')\<close>. The two dimensions are
  overwritten first; the chain on \<open>pool_type\<close> comes after, and its last branch
  \<^emph>\<open>returns\<close> the \<open>TypeError\<close> object. \<open>nn.LPPool2d(kernel, stride)\<close> is kept with
  the two arguments in the positions the source gives them.
\<close>

definition pooling ::
  "convnet_dims \<Rightarrow> int \<Rightarrow> int \<Rightarrow> string \<Rightarrow> py_error + (layer \<times> convnet_dims)" where
  "pooling self kern stride pool_type =
     and_then (true_divide (img_h self) stride) (\<lambda>qh.
     and_then (true_divide (img_w self) stride) (\<lambda>qw.
       let self = self\<lparr>img_h := py_int qh, img_w := py_int qw\<rparr>
       in if pool_type = ''max'' then Inr (MaxPool2d kern stride, self)
          else if pool_type = ''avg'' then Inr (AvgPool2d kern stride, self)
          else if pool_type = ''lp'' then Inr (LPPool2d kern stride, self)
          else Inr (TypeError_object ''Unknown Type'', self)))"

text \<open>
  \<open>ConvNet.__init__(self, img_h, img_w, n_classes, colour_size=1)\<close>: the two builder
  methods run in the order conv, pool, conv, pool on the same \<open>self\<close>, then the flattened
  size and the four linear layers are set.
\<close>

record convnet =
  dims :: convnet_dims
  conv1 :: layer
  maxPool3 :: layer
  conv2 :: layer
  maxPool2 :: layer
  flattened :: int
  fc1 :: layer
  fc2 :: layer
  fc3 :: layer
  fc4 :: layer

definition ConvNet_init :: "int \<Rightarrow> int \<Rightarrow> int \<Rightarrow> int \<Rightarrow> py_error + convnet" where
  "ConvNet_init h w n_classes colour_size =
     (let self = \<lparr>img_h = h, img_w = w, last_out = 0\<rparr>
      in and_then (convolution self colour_size 16 5 1 (- 1)) (\<lambda>(c1, self).
         and_then (pooling self 3 3 ''max'') (\<lambda>(p3, self).
         and_then (convolution self (last_out self) 32 5 1 (- 1)) (\<lambda>(c2, self).
         and_then (pooling self 2 2 ''max'') (\<lambda>(p2, self).
           let n = img_h self * img_w self * last_out self
           in Inr \<lparr>dims = self, conv1 = c1, maxPool3 = p3, conv2 = c2, maxPool2 = p2,
                   flattened = n, fc1 = Linear n 128, fc2 = Linear 128 64,
                   fc3 = Linear 64 32, fc4 = Linear 32 n_classes\<rparr>)))))"

section \<open>The forward pass\<close>

text \<open>
  Tensors and what torch computes on them are not part of the repository: they are the
  parameter \<open>T\<close>. \<open>call_layer T l x\<close> is the call \<open>l(x)\<close> of a torch layer with its
  current weights, \<open>relu T\<close> is \<open>torch.nn.functional.relu\<close>, \<open>view T x n\<close> is
  \<open>x.view(-1, n)\<close>. Calling the \<open>TypeError\<close> object that \<open>pooling\<close> can hand back raises
  \<open>TypeError\<close>, since an exception instance is not callable.
\<close>

record 't torch =
  call_layer :: "layer \<Rightarrow> 't \<Rightarrow> py_error + 't"
  relu :: "'t \<Rightarrow> 't"
  view :: "'t \<Rightarrow> int \<Rightarrow> py_error + 't"

definition call :: "'t torch \<Rightarrow> layer \<Rightarrow> 't \<Rightarrow> py_error + 't" where
  "call T l x = (case l of TypeError_object _ \<Rightarrow> Inl TypeError | _ \<Rightarrow> call_layer T l x)"

definition forward :: "'t torch \<Rightarrow> convnet \<Rightarrow> 't \<Rightarrow> py_error + 't" where
  "forward T self x =
     and_then (call T (conv1 self) x) (\<lambda>x.
     and_then (call T (maxPool3 self) (relu T x)) (\<lambda>x.
     and_then (call T (conv2 self) x) (\<lambda>x.
     and_then (call T (maxPool2 self) (relu T x)) (\<lambda>x.
     and_then (view T x (flattened self)) (\<lambda>x.
     and_then (call T (fc1 self) x) (\<lambda>x. let x = relu T x in
     and_then (call T (fc2 self) x) (\<lambda>x. let x = relu T x in
     and_then (call T (fc3 self) x) (\<lambda>x. let x = relu T x in
     call T (fc4 self) x))))))))"

text \<open>
  The pipeline as the specification words it: a fixed list of stages run from left to
  right, the first failing stage ending the run. The activation follows the five weighted
  layers \<open>conv1\<close>, \<open>conv2\<close>, \<open>fc1\<close>, \<open>fc2\<close>, \<open>fc3\<close> and not the last one.
\<close>

datatype stage = Layer layer | Relu | Flatten int

definition run_stage :: "'t torch \<Rightarrow> stage \<Rightarrow> 't \<Rightarrow> py_error + 't" where
  "run_stage T st x =
     (case st of Layer l \<Rightarrow> call T l x | Relu \<Rightarrow> Inr (relu T x) | Flatten n \<Rightarrow> view T x n)"

fun run_pipeline :: "'t torch \<Rightarrow> stage list \<Rightarrow> 't \<Rightarrow> py_error + 't" where
  "run_pipeline T [] x = Inr x"
| "run_pipeline T (st # sts) x = and_then (run_stage T st x) (run_pipeline T sts)"

definition spec_pipeline :: "convnet \<Rightarrow> stage list" where
  "spec_pipeline self =
     [Layer (conv1 self), Relu, Layer (maxPool3 self),
      Layer (conv2 self), Relu, Layer (maxPool2 self),
      Flatten (flattened self),
      Layer (fc1 self), Relu, Layer (fc2 self), Relu, Layer (fc3 self), Relu,
      Layer (fc4 self)]"

text \<open>
  The same pipeline read with the activation after every stage but the last, the pooling
  and flatten stages included.
\<close>

definition literal_pipeline :: "convnet \<Rightarrow> stage list" where
  "literal_pipeline self =
     [Layer (conv1 self), Relu, Layer (maxPool3 self), Relu,
      Layer (conv2 self), Relu, Layer (maxPool2 self), Relu,
      Flatten (flattened self), Relu,
      Layer (fc1 self), Relu, Layer (fc2 self), Relu, Layer (fc3 self), Relu,
      Layer (fc4 self)]"

section \<open>Loops\<close>

text \<open>A \<open>for\<close> loop whose body can raise: the first exception ends the loop.\<close>

fun for_each :: "('s \<Rightarrow> 'a \<Rightarrow> py_error + 's) \<Rightarrow> 'a list \<Rightarrow> 's \<Rightarrow> py_error + 's" where
  "for_each body [] s = Inr s"
| "for_each body (x # xs) s = and_then (body s x) (for_each body xs)"

section \<open>train_model\<close>

text \<open>
  The collaborators of the training loop are parameters. \<open>train_step T model batch\<close> is
  lines 38 to 50 for one batch: move the batch to the device, run the model, evaluate the
  criterion, read \<open>loss.item()\<close>, then \<open>zero_grad\<close>, \<open>backward\<close> and \<open>optimizer.step()\<close>;
  it gives the loss value and the updated model (with its optimizer). Loss values are
  floats; their arithmetic is a parameter as well, so nothing is assumed about it:
  \<open>add_loss\<close> is \<open>+\<close>, \<open>div_loss x n\<close> is \<open>x / n\<close> for an integer \<open>n \<noteq> 0\<close>, and
  \<open>zero_loss\<close> is the integer \<open>0\<close> that \<open>mean_loss\<close> starts from.

  A data loader has a length, \<open>len(data_loader)\<close>, and yields a finite list of batches
  each time it is iterated; \<open>dl_iter dl k\<close> is what iteration number \<open>k\<close> yields. Nothing
  ties the number of batches of an iteration to \<open>dl_len\<close>.
\<close>

record ('m, 'b, 'l) trainer =
  train_step :: "'m \<Rightarrow> 'b \<Rightarrow> 'l \<times> 'm"
  add_loss :: "'l \<Rightarrow> 'l \<Rightarrow> 'l"
  div_loss :: "'l \<Rightarrow> int \<Rightarrow> 'l"
  zero_loss :: 'l

record 'b data_loader =
  dl_len :: nat
  dl_iter :: "nat \<Rightarrow> 'b list"

text \<open>
  Lines 52 and 53, the two tests in front of the progress line:
  \<^verbatim>\<open>if epoch % print_epochs == 0:
    if (i+1) % int(n_total_steps / print_steps) == 0:\<close>
  Either \<open>%\<close> raises on a zero right operand. The text that is printed is not modelled.
\<close>

definition print_due :: "int \<Rightarrow> int \<Rightarrow> int \<Rightarrow> int \<Rightarrow> int \<Rightarrow> py_error + bool" where
  "print_due epoch print_epochs n_total_steps print_steps i =
     (if print_epochs = 0 then Inl ZeroDivisionError
      else if epoch mod print_epochs = 0 then
        and_then (true_divide n_total_steps print_steps) (\<lambda>q.
          if py_int q = 0 then Inl ZeroDivisionError
          else Inr ((i + 1) mod py_int q = 0))
      else Inr False)"

text \<open>The body of the inner loop, for batch number \<open>i\<close>.\<close>

definition train_batch ::
  "('m, 'b, 'l) trainer \<Rightarrow> (int \<Rightarrow> py_error + bool) \<Rightarrow> 'm \<times> 'l \<times> int \<Rightarrow> nat \<times> 'b
     \<Rightarrow> py_error + ('m \<times> 'l \<times> int)" where
  "train_batch T due st ib =
     (case (st, ib) of ((model, mean_loss, loss_counter), (i, batch)) \<Rightarrow>
        let (loss, model) = train_step T model batch;
            mean_loss = add_loss T mean_loss loss;
            loss_counter = loss_counter + 1
        in and_then (due (int i)) (\<lambda>_. Inr (model, mean_loss, loss_counter)))"

text \<open>The body of the outer loop: both accumulators start again, then one pass.\<close>

definition train_epoch ::
  "('m, 'b, 'l) trainer \<Rightarrow> 'b data_loader \<Rightarrow> int \<Rightarrow> int \<Rightarrow> 'm \<times> 'l \<Rightarrow> nat
     \<Rightarrow> py_error + ('m \<times> 'l)" where
  "train_epoch T data_loader print_epochs print_steps st epoch =
     (case st of (model, _) \<Rightarrow>
        let mean_loss = zero_loss T;
            loss_counter = 0
        in and_then
             (for_each
                (train_batch T
                   (print_due (int epoch) print_epochs (int (dl_len data_loader)) print_steps))
                (enumerate 0 (dl_iter data_loader epoch))
                (model, mean_loss, loss_counter))
             (\<lambda>(model, mean_loss, _). Inr (model, mean_loss)))"

text \<open>
  \<open>train_model(model, data_loader, criterion, optimizer, n_epochs, device, print_steps,
  print_epochs, loss_acc)\<close>. The criterion, the optimizer and the device live in
  \<open>train_step\<close>; \<open>loss_acc\<close> only formats the progress line. The value is the returned
  loss together with the trained model.
\<close>

definition train_model ::
  "('m, 'b, 'l) trainer \<Rightarrow> 'm \<Rightarrow> 'b data_loader \<Rightarrow> int \<Rightarrow> int \<Rightarrow> int option
     \<Rightarrow> py_error + ('l \<times> 'm)" where
  "train_model T model data_loader n_epochs print_steps print_epochs =
     (let print_epochs = (case print_epochs of None \<Rightarrow> n_epochs | Some p \<Rightarrow> p);
          n_total_steps = int (dl_len data_loader);
          mean_loss = zero_loss T
      in and_then
           (for_each (train_epoch T data_loader print_epochs print_steps)
              [0..<nat n_epochs] (model, mean_loss))
           (\<lambda>(model, mean_loss).
              if n_total_steps = 0 then Inl ZeroDivisionError
              else Inr (div_loss T mean_loss n_total_steps, model)))"

text \<open>
  What the claim about the returned loss refers to: the losses one pass produces, the
  model a pass leaves behind, and the model after the first \<open>k\<close> epochs.
\<close>

fun pass_losses :: "('m, 'b, 'l) trainer \<Rightarrow> 'm \<Rightarrow> 'b list \<Rightarrow> 'l list" where
  "pass_losses T model [] = []"
| "pass_losses T model (batch # rest) =
     fst (train_step T model batch) # pass_losses T (snd (train_step T model batch)) rest"

fun pass_model :: "('m, 'b, 'l) trainer \<Rightarrow> 'm \<Rightarrow> 'b list \<Rightarrow> 'm" where
  "pass_model T model [] = model"
| "pass_model T model (batch # rest) = pass_model T (snd (train_step T model batch)) rest"

fun model_after :: "('m, 'b, 'l) trainer \<Rightarrow> 'b data_loader \<Rightarrow> nat \<Rightarrow> 'm \<Rightarrow> 'm" where
  "model_after T data_loader 0 model = model"
| "model_after T data_loader (Suc k) model =
     pass_model T (model_after T data_loader k model) (dl_iter data_loader k)"

definition last_epoch_loss_sum ::
  "('m, 'b, 'l) trainer \<Rightarrow> 'm \<Rightarrow> 'b data_loader \<Rightarrow> int \<Rightarrow> 'l" where
  "last_epoch_loss_sum T model data_loader n_epochs =
     (let k = nat n_epochs - 1
      in foldl (add_loss T) (zero_loss T)
           (pass_losses T (model_after T data_loader k model) (dl_iter data_loader k)))"

section \<open>save_model and load_model\<close>

text \<open>
  A model is held by its parameter state (\<open>model.state_dict()\<close>) and the device it sits
  on. A \<open>torch.device\<close> is a type name with an optional index: \<open>torch.device('cuda')\<close> is
  \<open>Device ''cuda'' None\<close>, \<open>torch.device('cuda:0')\<close> is \<open>Device ''cuda'' (Some 0)\<close>, and
  two devices are equal when both parts are. The files are a map from paths to the
  parameter states stored there.
\<close>

datatype device = Device string "nat option"

record 'p nn_module =
  state_dict :: 'p
  location :: device

type_synonym 'p files = "string \<rightharpoonup> 'p"

text \<open>
  What torch and the display contribute to \<open>load_model\<close>, again as parameters:
  \<open>predict p x\<close> is the index of the largest output of the model with parameters \<open>p\<close>
  on image \<open>x\<close> (\<open>torch.max(outputs, 1)\<close>); \<open>same_arch p q\<close> says that
  \<open>load_state_dict\<close> accepts \<open>q\<close> for a model whose parameters are \<open>p\<close> (same keys and
  shapes); \<open>pixel_key x\<close> is \<open>str(images[i][0][0].numpy())\<close>; \<open>percent c n\<close> is the float
  \<open>100.0 * c / n\<close> for \<open>n \<noteq> 0\<close>.
\<close>

record ('p, 'x, 'f) evaluator =
  predict :: "'p \<Rightarrow> 'x \<Rightarrow> int"
  same_arch :: "'p \<Rightarrow> 'p \<Rightarrow> bool"
  pixel_key :: "'x \<Rightarrow> string"
  percent :: "int \<Rightarrow> int \<Rightarrow> 'f"

text \<open>\<^verbatim>\<open>def save_model(model, save_path):
    torch.save(model.state_dict(), save_path)\<close>\<close>

definition save_model :: "'p files \<Rightarrow> 'p nn_module \<Rightarrow> string \<Rightarrow> 'p files" where
  "save_model fs model save_path = fs(save_path \<mapsto> state_dict model)"

text \<open>
  \<open>model.load_state_dict(torch.load(save_path, map_location=...))\<close>: a missing file
  raises, a state that does not fit the model raises, otherwise the parameters are
  replaced by the stored ones.
\<close>

definition load_state_dict ::
  "('p, 'x, 'f) evaluator \<Rightarrow> 'p files \<Rightarrow> 'p nn_module \<Rightarrow> string \<Rightarrow> py_error + 'p nn_module" where
  "load_state_dict E fs model save_path =
     (case fs save_path of
        None \<Rightarrow> Inl FileNotFoundError
      | Some stored \<Rightarrow>
          if same_arch E (state_dict model) stored then Inr (model\<lparr>state_dict := stored\<rparr>)
          else Inl RuntimeError)"

text \<open>
  Lines 77 to 83 of \<open>load_model\<close>: three separate \<open>if\<close> statements, one for each of
  \<open>torch.device('cuda')\<close>, \<open>torch.device('mps')\<close>, \<open>torch.device('cpu')\<close>, then
  \<open>model.to(device)\<close>.
\<close>

definition load_checkpoint ::
  "('p, 'x, 'f) evaluator \<Rightarrow> 'p files \<Rightarrow> 'p nn_module \<Rightarrow> device \<Rightarrow> string option
     \<Rightarrow> py_error + 'p nn_module" where
  "load_checkpoint E fs model dev save_path =
     and_then
       (if save_path \<noteq> None \<and> dev = Device ''cuda'' None
        then load_state_dict E fs model (the save_path) else Inr model) (\<lambda>model.
     and_then
       (if save_path \<noteq> None \<and> dev = Device ''mps'' None
        then load_state_dict E fs model (the save_path) else Inr model) (\<lambda>model.
     and_then
       (if save_path \<noteq> None \<and> dev = Device ''cpu'' None
        then load_state_dict E fs model (the save_path) else Inr model) (\<lambda>model.
     Inr (model\<lparr>location := dev\<rparr>))))"

text \<open>
  Python list access \<open>xs[i]\<close> and \<open>xs[i] += 1\<close>. \<open>py_index len i\<close> is the position
  that index \<open>i\<close> denotes in a list of \<open>len\<close> elements: an index from \<open>- len\<close> to
  \<open>- 1\<close> counts from the end, and an index outside \<open>- len \<dots> len - 1\<close> denotes none
  (\<open>IndexError\<close>).
\<close>

definition py_index :: "nat \<Rightarrow> int \<Rightarrow> nat option" where
  "py_index len i =
     (if 0 \<le> i \<and> i < int len then Some (nat i)
      else if - int len \<le> i \<and> i < 0 then Some (nat (int len + i))
      else None)"

definition list_get :: "'a list \<Rightarrow> int \<Rightarrow> py_error + 'a" where
  "list_get xs i =
     (case py_index (length xs) i of None \<Rightarrow> Inl IndexError | Some k \<Rightarrow> Inr (xs ! k))"

definition list_incr :: "int list \<Rightarrow> int \<Rightarrow> py_error + int list" where
  "list_incr xs i =
     (case py_index (length xs) i of
        None \<Rightarrow> Inl IndexError
      | Some k \<Rightarrow> Inr (xs[k := xs ! k + 1]))"

text \<open>The counters of the evaluation loop, lines 86 to 92.\<close>

record tallies =
  n_correct :: int
  n_samples :: int
  n_class_correct :: "int list"
  n_class_samples :: "int list"
  wrongs :: "string list"

text \<open>
  Lines 103 to 111, for one sample of a batch: its image, its label and the prediction.
  The display of a wrong sample is not modelled beyond the two lookups in
  \<open>classification\<close> that its \<open>print\<close> makes.
\<close>

definition count_sample ::
  "('p, 'x, 'f) evaluator \<Rightarrow> string list \<Rightarrow> bool \<Rightarrow> int \<Rightarrow> tallies \<Rightarrow> ('x \<times> int) \<times> int
     \<Rightarrow> py_error + tallies" where
  "count_sample E classification show_wrongs n_wrongs t smp =
     (case smp of ((img, label), pred) \<Rightarrow>
        and_then
          (if label = pred then
             and_then (list_incr (n_class_correct t) label) (\<lambda>c.
               Inr (t\<lparr>n_class_correct := c\<rparr>))
           else if show_wrongs \<and> int (length (wrongs t)) < n_wrongs
                   \<and> pixel_key E img \<notin> set (wrongs t) then
             let t = t\<lparr>wrongs := wrongs t @ [pixel_key E img]\<rparr>
             in and_then (list_get classification label) (\<lambda>_.
                and_then (list_get classification pred) (\<lambda>_. Inr t))
           else Inr t) (\<lambda>t.
        and_then (list_incr (n_class_samples t) label) (\<lambda>c.
          Inr (t\<lparr>n_class_samples := c\<rparr>))))"

text \<open>
  Lines 93 to 111 for one batch, a list of images with their labels: predict, add to the
  two overall counters, then go through the samples.
\<close>

definition count_batch ::
  "('p, 'x, 'f) evaluator \<Rightarrow> 'p \<Rightarrow> string list \<Rightarrow> bool \<Rightarrow> int \<Rightarrow> tallies \<Rightarrow> ('x \<times> int) list
     \<Rightarrow> py_error + tallies" where
  "count_batch E p classification show_wrongs n_wrongs t batch =
     (let predicted = map (\<lambda>(img, label). predict E p img) batch;
          t = t\<lparr>n_samples := n_samples t + int (length batch)\<rparr>;
          t = t\<lparr>n_correct := n_correct t
                 + int (length (filter (\<lambda>((img, label), pred). pred = label)
                                  (zip batch predicted)))\<rparr>
      in for_each (count_sample E classification show_wrongs n_wrongs) (zip batch predicted) t)"

definition tally ::
  "('p, 'x, 'f) evaluator \<Rightarrow> 'p \<Rightarrow> string list \<Rightarrow> bool \<Rightarrow> int \<Rightarrow> ('x \<times> int) list list
     \<Rightarrow> py_error + tallies" where
  "tally E p classification show_wrongs n_wrongs batches =
     (let n_classes = length classification
      in for_each (count_batch E p classification show_wrongs n_wrongs) batches
           \<lparr>n_correct = 0, n_samples = 0,
            n_class_correct = replicate n_classes 0,
            n_class_samples = replicate n_classes 0,
            wrongs = []\<rparr>)"

text \<open>
  Lines 117 to 119: the accuracy of each class in turn; the division is by the number of
  samples of the class, whatever it is. The value is the list of accuracies printed.
\<close>

definition class_accuracy ::
  "('p, 'x, 'f) evaluator \<Rightarrow> tallies \<Rightarrow> 'f list \<Rightarrow> nat \<Rightarrow> py_error + 'f list" where
  "class_accuracy E t printed i =
     (if n_class_samples t ! i = 0 then Inl ZeroDivisionError
      else Inr (printed @ [percent E (n_class_correct t ! i) (n_class_samples t ! i)]))"

definition class_accuracies ::
  "('p, 'x, 'f) evaluator \<Rightarrow> string list \<Rightarrow> tallies \<Rightarrow> py_error + 'f list" where
  "class_accuracies E classification t =
     for_each (class_accuracy E t) [0..<length classification] []"

text \<open>
  \<open>load_model(model, data_loader, classification, device, save_path, class_results,
  show_wrongs, n_wrongs)\<close>. The data loader is iterated once; \<open>batches\<close> is what that
  iteration yields. The value is the returned accuracy together with the model the call
  leaves behind.
\<close>

definition load_model ::
  "('p, 'x, 'f) evaluator \<Rightarrow> 'p files \<Rightarrow> 'p nn_module \<Rightarrow> ('x \<times> int) list list \<Rightarrow> string list
     \<Rightarrow> device \<Rightarrow> string option \<Rightarrow> bool \<Rightarrow> bool \<Rightarrow> int \<Rightarrow> py_error + ('f \<times> 'p nn_module)" where
  "load_model E fs model batches classification dev save_path class_results show_wrongs n_wrongs =
     and_then (load_checkpoint E fs model dev save_path) (\<lambda>model.
     and_then (tally E (state_dict model) classification show_wrongs n_wrongs batches) (\<lambda>t.
       if n_samples t = 0 then Inl ZeroDivisionError
       else
         let total_accuracy = percent E (n_correct t) (n_samples t)
         in and_then
              (if class_results then class_accuracies E classification t else Inr [])
              (\<lambda>_. Inr (total_accuracy, model))))"

section \<open>Facts about the division\<close>

lemma and_then_Inl [simp]: "and_then (Inl e) f = Inl e"
  by (simp add: and_then_def)

lemma and_then_Inr [simp]: "and_then (Inr x) f = f x"
  by (simp add: and_then_def)

lemma round_half_even_of_int: "round_half_even (of_int k) = k"
  by (simp add: round_half_even_def)

lemma round_half_even_near: "\<bar>of_int (round_half_even x) - x\<bar> \<le> 1 / 2"
proof -
  have "of_int \<lfloor>x\<rfloor> \<le> x" and "x < of_int \<lfloor>x\<rfloor> + 1"
    by linarith+
  then show ?thesis
    unfolding round_half_even_def Let_def by (auto simp: abs_le_iff)
qed

lemma round_half_even_nonneg: "0 \<le> x \<Longrightarrow> 0 \<le> round_half_even x"
  unfolding round_half_even_def Let_def by auto

lemma binade_le:
  assumes "0 < a" "0 < b"
  shows "2 powi (binade a b) \<le> (of_int a / of_int b :: rat)"
proof (cases "of_int b * 2 powi (bitlen a - bitlen b) \<le> (of_int a :: rat)")
  case True
  then show ?thesis using assms
    by (simp add: binade_def Let_def pos_le_divide_eq mult.commute)
next
  case False
  have la: "2 ^ nat (bitlen a - 1) \<le> a" and lb: "b < 2 ^ nat (bitlen b)"
    using bitlen_bounds assms by blast+
  have a1: "1 \<le> bitlen a" using assms(1) by (simp add: bitlen_alt_def)
  have b0: "0 \<le> bitlen b" by (rule bitlen_nonneg)
  have "(2::rat) powi (bitlen a - bitlen b - 1) = 2 powi (bitlen a - 1) / 2 powi (bitlen b)"
    by (simp add: power_int_diff)
  also have "\<dots> = 2 ^ nat (bitlen a - 1) / 2 ^ nat (bitlen b)"
    using a1 b0 by (simp add: power_int_def)
  also have "\<dots> \<le> of_int a / of_int b"
  proof (rule frac_le)
    show "(2::rat) ^ nat (bitlen a - 1) \<le> of_int a"
      using la by (metis of_int_le_iff of_int_numeral of_int_power)
    show "(of_int b :: rat) \<le> 2 ^ nat (bitlen b)"
      using lb by (metis less_imp_le of_int_le_iff of_int_numeral of_int_power)
  qed (use assms in auto)
  finally show ?thesis using False by (simp add: binade_def Let_def)
qed

lemma scale_near:
  fixes A q p :: rat
  assumes "0 < p" "\<bar>A - q / p\<bar> \<le> 1 / 2"
  shows "\<bar>A * p - q\<bar> \<le> p / 2"
proof -
  have "A * p - q = (A - q / p) * p"
    using assms(1) by (simp add: left_diff_distrib)
  then have "\<bar>A * p - q\<bar> = \<bar>A - q / p\<bar> * p"
    using assms(1) by (simp add: abs_mult)
  also have "\<dots> \<le> 1 / 2 * p"
    using assms by (intro mult_right_mono) simp_all
  finally show ?thesis by simp
qed

lemma nearest_binary64_near:
  "\<bar>nearest_binary64 a b - of_int a / of_int b\<bar> \<le> 2 powi (max (binade a b) (- 1022) - 53)"
proof -
  define u where "u = max (binade a b) (- 1022) - 52"
  define q :: rat where "q = of_int a / of_int b"
  have "\<bar>of_int (round_half_even (q / 2 powi u)) * 2 powi u - q\<bar> \<le> 2 powi u / 2"
    using round_half_even_near[of "q / 2 powi u"] by (intro scale_near) simp_all
  moreover have "(2::rat) powi u / 2 = 2 powi (u - 1)"
    by (simp add: power_int_diff)
  moreover have "u - 1 = max (binade a b) (- 1022) - 53"
    by (simp add: u_def)
  ultimately show ?thesis
    by (simp add: nearest_binary64_def Let_def u_def q_def)
qed

lemma nearest_binary64_nonneg:
  assumes "0 < a" "0 < b"
  shows "0 \<le> nearest_binary64 a b"
  using assms by (simp add: nearest_binary64_def Let_def round_half_even_nonneg)

lemma nearest_binary64_exact:
  assumes "0 < a" "0 < b" "of_int a / of_int b = (of_int n :: rat)" "n < 2 ^ 53"
  shows "nearest_binary64 a b = of_int n"
proof -
  define e where "e = binade a b"
  define u where "u = max e (- 1022) - 52"
  have "2 powi e \<le> (of_int n :: rat)"
    using binade_le[of a b] assms by (simp add: e_def)
  also have "\<dots> < 2 ^ 53" using assms(4)
    by (metis of_int_less_iff of_int_numeral of_int_power)
  finally have "(2::rat) powi e < 2 powi 53" by simp
  then have "e < 53" by (rule power_int_le_imp_less_exp[rotated]) simp_all
  then have u: "u \<le> 0" by (simp add: u_def)
  have "(of_int n :: rat) / 2 powi u = of_int n * 2 powi (- u)"
    by (simp add: power_int_minus field_simps)
  also have "\<dots> = of_int (n * 2 ^ nat (- u))"
    using u by (simp add: power_int_def)
  finally have "round_half_even (of_int n / 2 powi u) = n * 2 ^ nat (- u)"
    by (simp only: round_half_even_of_int)
  then have "nearest_binary64 a b = of_int (n * 2 ^ nat (- u)) * 2 powi u"
    by (simp add: nearest_binary64_def Let_def u_def e_def assms(3))
  also have "\<dots> = of_int n * (2 powi (- u) * 2 powi u)"
    using u by (simp add: power_int_def)
  also have "\<dots> = of_int n"
    by (simp add: power_int_minus)
  finally show ?thesis .
qed

lemma tiny_ulp:
  assumes "k \<le> - 54"
  shows "2 ^ 53 * (2::rat) powi k \<le> 1 / 2"
proof -
  have "(2::rat) ^ 53 * 2 powi k = 2 powi 53 * 2 powi k" by simp
  also have "\<dots> = 2 powi (53 + k)" by (simp add: power_int_add)
  also have "\<dots> \<le> 2 powi (- 1)"
    using assms by (intro power_int_increasing) simp_all
  finally show ?thesis by simp
qed

lemma nearest_binary64_floor:
  assumes a: "0 < a" "a < 2 ^ 53" and b: "0 < b"
  shows "of_int (a div b) \<le> nearest_binary64 a b \<and> nearest_binary64 a b < of_int (a div b) + 1"
proof -
  define q :: rat where "q = of_int a / of_int b"
  define n where "n = a div b"
  define t where "t = a mod b"
  define e where "e = binade a b"
  define h :: rat where "h = 2 powi (max e (- 1022) - 53)"
  have B: "(0::rat) < of_int b" using b by simp
  have A: "(0::rat) < of_int a" using a by simp
  have A2: "(of_int a :: rat) < 2 ^ 53" using a(2)
    by (metis of_int_less_iff of_int_numeral of_int_power)
  have t: "0 \<le> t" "t < b" using b by (simp_all add: t_def)
  have n0: "0 \<le> n" using a b by (simp add: n_def pos_imp_zdiv_nonneg_iff)
  have "a = n * b + t" by (simp add: n_def t_def)
  then have "(of_int a :: rat) = of_int n * of_int b + of_int t"
    by (metis of_int_add of_int_mult)
  then have q_eq: "q = of_int n + of_int t / of_int b"
    using B by (simp add: q_def field_simps)
  have near: "\<bar>nearest_binary64 a b - q\<bar> \<le> h"
    using nearest_binary64_near[of a b] by (simp add: q_def h_def e_def)
  have eq: "2 powi e \<le> q"
    using binade_le[OF a(1) b] by (simp add: q_def e_def)
  show ?thesis
  proof (cases "t = 0")
    case True
    then have "of_int a / of_int b = (of_int n :: rat)"
      using q_eq by (simp add: q_def)
    moreover have "n < 2 ^ 53"
      using int_div_le_self[OF a(1), of b] a(2) by (simp add: n_def)
    ultimately have "nearest_binary64 a b = of_int n"
      using nearest_binary64_exact[OF a(1) b] by blast
    then show ?thesis by (simp add: n_def)
  next
    case False
    with t have t1: "1 \<le> t" "t + 1 \<le> b" by simp_all
    have "(1::rat) \<le> of_int t" using t1(1) by simp
    then have lo: "of_int n + 1 / of_int b \<le> q"
      using B by (simp add: q_eq divide_right_mono)
    have "(of_int t :: rat) + 1 \<le> of_int b" using t1(2)
      by (metis of_int_1 of_int_add of_int_le_iff)
    then have "(of_int t :: rat) / of_int b \<le> (of_int b - 1) / of_int b"
      using B by (intro divide_right_mono) simp_all
    also have "\<dots> = 1 - 1 / of_int b"
      using B by (simp add: diff_divide_distrib)
    finally have hi: "q \<le> of_int n + 1 - 1 / of_int b"
      by (simp add: q_eq)
    show ?thesis
    proof (cases "h < 1 / of_int b")
      case True
      with near lo hi show ?thesis
        by (simp add: abs_le_iff n_def)
    next
      case False
      have small: "e < - 1022"
      proof (rule ccontr)
        assume "\<not> e < - 1022"
        then have hv: "h = 2 powi e / 2 ^ 53"
          by (simp add: h_def max_def power_int_diff)
        have "of_int b * 2 powi e \<le> (of_int a :: rat)"
          using eq B by (simp add: q_def pos_le_divide_eq mult.commute)
        then have "of_int b * 2 powi e < (2::rat) ^ 53"
          using A2 by linarith
        then have "of_int b * h < 1"
          by (simp add: hv)
        then have "h < 1 / of_int b"
          using B by (simp add: pos_less_divide_eq mult.commute)
        with False show False ..
      qed
      then have k: "max e (- 1022) - 53 \<le> - 54" by simp
      have h12: "2 ^ 53 * h \<le> 1 / 2"
        unfolding h_def by (rule tiny_ulp[OF k])
      have h0: "0 < h" by (simp add: h_def)
      from False have "1 / of_int b \<le> h" by simp
      then have "of_int a * (1 / of_int b) \<le> of_int a * h"
        using A by (intro mult_left_mono) simp_all
      then have "q \<le> of_int a * h"
        by (simp add: q_def)
      also have "\<dots> < 2 ^ 53 * h"
        using A2 h0 by simp
      finally have q12: "q < 1 / 2" using h12 by simp
      have "h \<le> 2 ^ 53 * h" using h0 by simp
      then have hh: "h \<le> 1 / 2" using h12 by simp
      have "(0::rat) < 1 / of_int b" using B by simp
      then have "(of_int n :: rat) < 1" using lo q12 by linarith
      then have "n = 0" using n0 by simp
      moreover have "0 \<le> nearest_binary64 a b" by (rule nearest_binary64_nonneg[OF a(1) b])
      moreover have "nearest_binary64 a b < 1" using near q12 hh by (simp add: abs_le_iff)
      ultimately show ?thesis by (simp add: n_def)
    qed
  qed
qed

lemma rat_of_int_less_pow53:
  assumes "a < (2::int) ^ 53"
  shows "(of_int a :: rat) < 2 ^ 53"
proof -
  have "(of_int a :: rat) < of_int (2 ^ 53)"
    using assms by (simp only: of_int_less_iff)
  then show ?thesis by simp
qed

lemma pow53_le_pow1024: "(2::rat) ^ 53 \<le> 2 ^ 1024"
  by (rule power_increasing) simp_all

lemma true_divide_floor:
  assumes "0 \<le> a" "a < 2 ^ 53" "0 < b"
  shows "\<exists>r. true_divide a b = Inr r \<and> py_int r = a div b"
proof (cases "a = 0")
  case True
  then show ?thesis using assms by (simp add: true_divide_def py_int_def)
next
  case False
  with assms have a: "0 < a" by simp
  define r where "r = nearest_binary64 a b"
  have fl: "of_int (a div b) \<le> r" "r < of_int (a div b) + 1"
    using nearest_binary64_floor[OF a assms(2,3)] by (simp_all add: r_def)
  have d0: "0 \<le> a div b" using a assms(3) by (simp add: pos_imp_zdiv_nonneg_iff)
  have "a div b \<le> a" by (rule int_div_le_self[OF a])
  then have "a div b + 1 - 1 < 2 ^ 53" using assms(2) by simp
  then have "(of_int (a div b + 1 - 1) :: rat) < 2 ^ 53"
    by (rule rat_of_int_less_pow53)
  then have "r < 2 ^ 53" using fl(2) by simp
  then have no: "\<not> 2 ^ 1024 \<le> r" using pow53_le_pow1024 by linarith
  have "(0::rat) \<le> of_int (a div b)" using d0 by simp
  then have r0: "0 \<le> r" using fl(1) by linarith
  have "\<lfloor>r\<rfloor> = a div b" using fl by (simp add: floor_unique)
  then have "py_int r = a div b" using r0 by (simp add: py_int_def)
  moreover have "nearest_binary64 \<bar>a\<bar> \<bar>b\<bar> = r"
    using a assms(3) by (simp add: r_def)
  then have "true_divide a b = Inr r"
    using a assms(3) no unfolding true_divide_def Let_def by (simp only: if_False) auto
  ultimately show ?thesis by blast
qed

text \<open>Evaluating the division on numerals.\<close>

lemma floor_rat_numeral: "\<lfloor>numeral a / numeral b :: rat\<rfloor> = numeral a div numeral b"
  using floor_divide_of_int_eq[of "numeral a" "numeral b", where ?'a = rat] by simp

lemma floor_rat_neg_numeral:
  "\<lfloor>- (numeral a / numeral b) :: rat\<rfloor> = - numeral a div numeral b"
  using floor_divide_of_int_eq[of "- numeral a" "numeral b", where ?'a = rat] by simp

lemma ceiling_rat_numeral:
  "\<lceil>numeral a / numeral b :: rat\<rceil> = - (- numeral a div numeral b)"
  unfolding ceiling_def using floor_rat_neg_numeral[of a b] by simp

lemma ceiling_rat_neg_numeral:
  "\<lceil>- (numeral a / numeral b) :: rat\<rceil> = - (numeral a div numeral b)"
  unfolding ceiling_def using floor_rat_numeral[of a b] by simp

lemmas float_eval =
  true_divide_def nearest_binary64_def binade_def round_half_even_def Let_def compute_bitlen
  py_int_def py_ceil_def floor_rat_numeral floor_rat_neg_numeral ceiling_rat_numeral
  ceiling_rat_neg_numeral

lemma true_divide_exact_pow53: "true_divide 9007199254740992 1 = Inr 9007199254740992"
  by (simp add: float_eval)

lemma true_divide_exact_neg_pow53: "true_divide (- 9007199254740992) 1 = Inr (- 9007199254740992)"
  by (simp add: float_eval)

lemma true_divide_one:
  assumes "\<bar>h\<bar> \<le> 2 ^ 53"
  shows "true_divide h 1 = Inr (of_int h)"
proof -
  consider "h = 0" | "h = 2 ^ 53" | "h = - (2 ^ 53)" | "0 < \<bar>h\<bar>" "\<bar>h\<bar> < 2 ^ 53"
    using assms by fastforce
  then show ?thesis
  proof cases
    case 1
    then show ?thesis by (simp add: true_divide_def)
  next
    case 2
    then show ?thesis using true_divide_exact_pow53 by simp
  next
    case 3
    then show ?thesis using true_divide_exact_neg_pow53 by simp
  next
    case 4
    have r: "nearest_binary64 \<bar>h\<bar> 1 = of_int \<bar>h\<bar>"
      using 4 by (intro nearest_binary64_exact) simp_all
    have "(of_int \<bar>h\<bar> :: rat) < 2 ^ 53"
      using 4(2) by (rule rat_of_int_less_pow53)
    then have no: "\<not> 2 ^ 1024 \<le> (of_int \<bar>h\<bar> :: rat)"
      using pow53_le_pow1024 by linarith
    have "true_divide h 1 = Inr (if (h < 0) = ((1::int) < 0) then of_int \<bar>h\<bar> else - of_int \<bar>h\<bar>)"
      using 4(1) no r unfolding true_divide_def Let_def by (simp only: abs_one) auto
    then show ?thesis by auto
  qed
qed

lemma py_ceil_of_int: "py_ceil (of_int n) = n"
  by (simp add: py_ceil_def)

lemma py_int_of_int: "py_int (of_int n) = n"
  by (simp add: py_int_def)

lemma true_divide_5_2: "true_divide 5 2 = Inr (5 / 2)"
  by (simp add: float_eval)

lemma py_int_5_2: "py_int (5 / 2) = 2"
  by (simp add: float_eval)

lemma floor_rat_div: "0 < b \<Longrightarrow> \<lfloor>of_int a / of_int b :: rat\<rfloor> = a div b"
  by (simp add: floor_divide_of_int_eq)

section \<open>Output sizes: \<open>conv_out\<close> and the explicit-padding branch\<close>

text \<open>
  \<open>int\<close> truncates toward zero, so for a kernel larger than the padded size and a
  quotient that is not whole the result is one more than the floor formula gives:
  \<open>conv_out(2, 0, 5, 2)\<close> is \<open>int(-1.5) + 1 = 0\<close>, the formula gives \<open>- 1\<close>.
\<close>

theorem conv_out_counterexample:
  "conv_out 2 0 5 2 = Inr 0 \<and> \<lfloor>of_int (2 + 2 * 0 - 5) / of_int 2 :: rat\<rfloor> + 1 = - 1"
  by (simp add: float_eval conv_out_def)

text \<open>
  Above \<open>2^53\<close> the float quotient is no longer exact: \<open>(2^53 + 1) / 1\<close> is the float
  \<open>2^53\<close>, and \<open>conv_out\<close> gives \<open>2^53 + 1\<close> where the formula gives \<open>2^53 + 2\<close>.
\<close>

lemma conv_out_beyond_2_53:
  "conv_out 9007199254740993 0 0 1 = Inr 9007199254740993"
  by (simp add: float_eval conv_out_def)

text \<open>
  Claim C1, amended. For non-negative \<open>size\<close>, \<open>padding\<close>, \<open>kernel\<close> and \<open>stride > 0\<close>
  with \<open>kernel \<le> size + 2 * padding\<close> and \<open>size + 2 * padding - kernel < 2^53\<close>,
  \<open>conv_out\<close> returns exactly \<open>floor((size + 2 * padding - kernel) / stride) + 1\<close>, and
  under the same conditions on \<open>img_h\<close> and \<open>img_w\<close> the explicit-padding branch of
  \<open>ConvNet.convolution\<close> stores that value in both dimensions. The witness has
  \<open>conv_out(28, 2, 5, 1) = 28\<close>.
\<close>

theorem conv_out_floor_formula:
  fixes sz padding kern stride :: int
  assumes "0 \<le> padding" "0 \<le> kern" "0 < stride"
    and "0 \<le> sz" "kern \<le> sz + 2 * padding" "sz + 2 * padding - kern < 2 ^ 53"
    and "0 \<le> img_h self" "kern \<le> img_h self + 2 * padding"
      "img_h self + 2 * padding - kern < 2 ^ 53"
    and "0 \<le> img_w self" "kern \<le> img_w self + 2 * padding"
      "img_w self + 2 * padding - kern < 2 ^ 53"
  shows "conv_out sz padding kern stride
           = Inr (\<lfloor>of_int (sz + 2 * padding - kern) / of_int stride :: rat\<rfloor> + 1)
       \<and> convolution self in_size out_size kern stride padding
           = Inr (Conv2d in_size out_size kern padding,
                  self\<lparr>last_out := out_size,
                       img_h := \<lfloor>of_int (img_h self + 2 * padding - kern) / of_int stride :: rat\<rfloor> + 1,
                       img_w := \<lfloor>of_int (img_w self + 2 * padding - kern) / of_int stride :: rat\<rfloor> + 1\<rparr>)"
proof -
  obtain r where r: "true_divide (sz + 2 * padding - kern) stride = Inr r"
      "py_int r = (sz + 2 * padding - kern) div stride"
    using true_divide_floor[of "sz + 2 * padding - kern" stride] assms by auto
  obtain rh where rh: "true_divide (img_h self + 2 * padding - kern) stride = Inr rh"
      "py_int rh = (img_h self + 2 * padding - kern) div stride"
    using true_divide_floor[of "img_h self + 2 * padding - kern" stride] assms by auto
  obtain rw where rw: "true_divide (img_w self + 2 * padding - kern) stride = Inr rw"
      "py_int rw = (img_w self + 2 * padding - kern) div stride"
    using true_divide_floor[of "img_w self + 2 * padding - kern" stride] assms by auto
  have p: "padding \<noteq> - 1" using assms(1) by simp
  show ?thesis
    unfolding floor_divide_of_int_eq
    using r rh rw p by (simp add: conv_out_def convolution_def)
qed

theorem conv_out_floor_formula_witness:
  "conv_out 28 2 5 1 = Inr 28
   \<and> convolution \<lparr>img_h = 28, img_w = 28, last_out = 0\<rparr> 1 16 5 1 2
       = Inr (Conv2d 1 16 5 2, \<lparr>img_h = 28, img_w = 28, last_out = 16\<rparr>)"
  using conv_out_floor_formula[of 2 5 1 28 "\<lparr>img_h = 28, img_w = 28, last_out = 0\<rparr>" 1 16]
  by (simp add: floor_divide_of_int_eq[of 27 1, simplified])

section \<open>Automatic padding with stride 1\<close>

text \<open>
  \<open>(2^53 + 1) / 1\<close> is the float \<open>2^53\<close>: the integer \<open>2^53 + 1\<close> is halfway between two
  floats and the tie goes to the even one. \<open>ceil\<close> of it is \<open>2^53\<close>, so a recorded height
  of \<open>2^53 + 1\<close> does not survive the call.
\<close>

theorem convolution_auto_counterexample:
  "convolution \<lparr>img_h = 9007199254740993, img_w = 28, last_out = 0\<rparr> 1 16 5 1 (- 1)
     = Inr (Conv2d 1 16 5 2, \<lparr>img_h = 9007199254740992, img_w = 28, last_out = 16\<rparr>)"
  by (simp add: convolution_def float_eval)

text \<open>
  Claim C5, amended. When \<open>ConvNet.convolution\<close> is called with \<open>padding = -1\<close> and
  \<open>stride = 1\<close> on recorded dimensions of absolute value at most \<open>2^53\<close>, the call leaves
  \<open>img_h\<close> and \<open>img_w\<close> as they were: the only attribute it changes is \<open>last_out\<close>, and
  the only thing that can still raise is \<open>int(kernel / 2)\<close>. With the default kernel
  \<open>5\<close> it returns \<open>Conv2d(in_size, out_size, 5, padding=2)\<close>.
\<close>

theorem convolution_auto_stride_1:
  assumes "\<bar>img_h self\<bar> \<le> 2 ^ 53" "\<bar>img_w self\<bar> \<le> 2 ^ 53"
  shows "convolution self in_size out_size kern 1 (- 1)
           = and_then (true_divide kern 2) (\<lambda>qk.
               Inr (Conv2d in_size out_size kern (py_int qk),
                    self\<lparr>last_out := out_size, img_h := img_h self, img_w := img_w self\<rparr>))
       \<and> convolution self in_size out_size 5 1 (- 1)
           = Inr (Conv2d in_size out_size 5 2,
                  self\<lparr>last_out := out_size, img_h := img_h self, img_w := img_w self\<rparr>)"
  using true_divide_one[OF assms(1)] true_divide_one[OF assms(2)]
  by (simp add: convolution_def py_ceil_of_int true_divide_5_2 py_int_5_2)

theorem convolution_auto_stride_1_witness:
  "convolution \<lparr>img_h = 28, img_w = 28, last_out = 0\<rparr> 1 16 5 1 (- 1)
     = Inr (Conv2d 1 16 5 2, \<lparr>img_h = 28, img_w = 28, last_out = 16\<rparr>)"
  using convolution_auto_stride_1[of "\<lparr>img_h = 28, img_w = 28, last_out = 0\<rparr>" 1 16 5]
  by (simp add: true_divide_5_2 py_int_5_2)

section \<open>Pooling\<close>

text \<open>
  \<open>int\<close> truncates where the claim floors: with a negative stride,
  \<open>int(7 / -2) = int(-3.5) = -3\<close> while \<open>floor(7 / -2) = -4\<close>. (A stride of \<open>0\<close> raises
  \<open>ZeroDivisionError\<close> before anything is stored, and above \<open>2^53\<close> the float quotient is
  inexact.)
\<close>

theorem pooling_floor_counterexample:
  "pooling \<lparr>img_h = 7, img_w = 7, last_out = 16\<rparr> 2 (- 2) ''max''
     = Inr (MaxPool2d 2 (- 2), \<lparr>img_h = - 3, img_w = - 3, last_out = 16\<rparr>)
   \<and> \<lfloor>of_int 7 / of_int (- 2) :: rat\<rfloor> = - 4"
  by (simp add: pooling_def float_eval)

lemma pooling_zero_stride: "pooling self kern 0 pool_type = Inl ZeroDivisionError"
  by (simp add: pooling_def true_divide_def)

text \<open>
  Claim C6, amended. For every call to \<open>ConvNet.pooling\<close> with \<open>stride > 0\<close> on recorded
  dimensions \<open>0 \<le> img_h, img_w < 2^53\<close>, whatever the kernel and the pooling type, the
  call returns and the recorded dimensions become \<open>floor(img_h / stride)\<close> and
  \<open>floor(img_w / stride)\<close>.
\<close>

theorem pooling_floor_dims:
  assumes "0 < stride" "0 \<le> img_h self" "img_h self < 2 ^ 53"
    "0 \<le> img_w self" "img_w self < 2 ^ 53"
  shows "\<exists>l. pooling self kern stride pool_type
           = Inr (l, self\<lparr>img_h := \<lfloor>of_int (img_h self) / of_int stride :: rat\<rfloor>,
                          img_w := \<lfloor>of_int (img_w self) / of_int stride :: rat\<rfloor>\<rparr>)"
proof -
  obtain rh where rh: "true_divide (img_h self) stride = Inr rh"
      "py_int rh = img_h self div stride"
    using true_divide_floor[of "img_h self" stride] assms by auto
  obtain rw where rw: "true_divide (img_w self) stride = Inr rw"
      "py_int rw = img_w self div stride"
    using true_divide_floor[of "img_w self" stride] assms by auto
  show ?thesis
    unfolding floor_divide_of_int_eq
    using rh rw by (simp add: pooling_def Let_def)
qed

theorem pooling_floor_dims_witness:
  "\<exists>l. pooling \<lparr>img_h = 28, img_w = 28, last_out = 16\<rparr> 3 3 ''avg''
         = Inr (l, \<lparr>img_h = 9, img_w = 9, last_out = 16\<rparr>)"
  using pooling_floor_dims[of 3 "\<lparr>img_h = 28, img_w = 28, last_out = 16\<rparr>" 3 "''avg''"]
  by (simp add: floor_rat_numeral)

text \<open>
  Claim C3. For every \<open>pool_type\<close> other than \<open>'max'\<close>, \<open>'avg'\<close> and \<open>'lp'\<close>,
  \<open>ConvNet.pooling\<close> does not raise for the unknown type: once the two dimensions are
  stored, its result is the object \<open>TypeError("Unknown Type")\<close>, returned in the place of
  a layer. The only exceptions such a call can raise are those of the two divisions by
  \<open>stride\<close> in front of the test; for a positive stride and dimensions in
  \<open>0 \<dots> 2^53 - 1\<close> there is none and the caller receives the error object.
\<close>

theorem pooling_unknown_type_returns_error_object:
  assumes "pool_type \<noteq> ''max''" "pool_type \<noteq> ''avg''" "pool_type \<noteq> ''lp''"
  shows "pooling self kern stride pool_type
           = and_then (true_divide (img_h self) stride) (\<lambda>qh.
             and_then (true_divide (img_w self) stride) (\<lambda>qw.
               Inr (TypeError_object ''Unknown Type'',
                    self\<lparr>img_h := py_int qh, img_w := py_int qw\<rparr>)))
       \<and> pooling self kern stride pool_type \<noteq> Inl TypeError
       \<and> (0 < stride \<and> 0 \<le> img_h self \<and> img_h self < 2 ^ 53
            \<and> 0 \<le> img_w self \<and> img_w self < 2 ^ 53
          \<longrightarrow> (\<exists>self'. pooling self kern stride pool_type
                          = Inr (TypeError_object ''Unknown Type'', self')))"
proof (intro conjI impI)
  show eq: "pooling self kern stride pool_type
           = and_then (true_divide (img_h self) stride) (\<lambda>qh.
             and_then (true_divide (img_w self) stride) (\<lambda>qw.
               Inr (TypeError_object ''Unknown Type'',
                    self\<lparr>img_h := py_int qh, img_w := py_int qw\<rparr>)))"
    using assms by (simp add: pooling_def)
  have nt: "true_divide a b \<noteq> Inl TypeError" for a b
    by (simp add: true_divide_def Let_def)
  show "pooling self kern stride pool_type \<noteq> Inl TypeError"
    unfolding eq using nt[of "img_h self" stride] nt[of "img_w self" stride]
    by (auto simp: and_then_def split: sum.splits)
next
  assume b: "0 < stride \<and> 0 \<le> img_h self \<and> img_h self < 2 ^ 53
            \<and> 0 \<le> img_w self \<and> img_w self < 2 ^ 53"
  obtain rh where rh: "true_divide (img_h self) stride = Inr rh"
    using true_divide_floor[of "img_h self" stride] b by auto
  obtain rw where rw: "true_divide (img_w self) stride = Inr rw"
    using true_divide_floor[of "img_w self" stride] b by auto
  show "\<exists>self'. pooling self kern stride pool_type
                  = Inr (TypeError_object ''Unknown Type'', self')"
    using assms rh rw by (simp add: pooling_def)
qed

theorem pooling_unknown_type_returns_error_object_witness:
  "pooling \<lparr>img_h = 28, img_w = 28, last_out = 16\<rparr> 2 2 ''median''
     = Inr (TypeError_object ''Unknown Type'', \<lparr>img_h = 14, img_w = 14, last_out = 16\<rparr>)
   \<and> pooling \<lparr>img_h = 28, img_w = 28, last_out = 16\<rparr> 2 2 ''median'' \<noteq> Inl TypeError"
  using pooling_unknown_type_returns_error_object
          [of "''median''" "\<lparr>img_h = 28, img_w = 28, last_out = 16\<rparr>" 2 2]
  by (simp add: float_eval)

text \<open>
  With a stride of \<open>1\<close> the dimensions that \<open>pooling\<close> stores are the ones that were
  there: the call with an unknown \<open>pool_type\<close> returns the error object and \<open>self\<close> is
  what it was.
\<close>

theorem pooling_error_path_counterexample:
  "pooling \<lparr>img_h = 28, img_w = 28, last_out = 16\<rparr> 2 1 ''median''
     = Inr (TypeError_object ''Unknown Type'', \<lparr>img_h = 28, img_w = 28, last_out = 16\<rparr>)"
  by (simp add: pooling_def float_eval)

text \<open>
  Claim C10, amended. \<open>ConvNet.pooling\<close> stores the new dimensions before it looks at
  \<open>pool_type\<close>, and nothing is undone afterwards: a call with an unknown \<open>pool_type\<close> ends
  as the same call with \<open>'max'\<close> ends, with the same exception from the divisions or
  with the same \<open>self\<close>, only that the error object is returned in the place of the layer.
  When \<open>stride \<ge> 2\<close> and \<open>0 < img_h, img_w < 2^53\<close> the call returns the error object and
  both recorded dimensions have shrunk, to \<open>floor(img_h / stride)\<close> and
  \<open>floor(img_w / stride)\<close>, so \<open>self\<close> is not what it was before the call.
\<close>

theorem pooling_mutates_before_validation:
  assumes "pool_type \<noteq> ''max''" "pool_type \<noteq> ''avg''" "pool_type \<noteq> ''lp''"
  shows "pooling self kern stride pool_type
           = (case pooling self kern stride ''max'' of
                Inl e \<Rightarrow> Inl e
              | Inr (l, self') \<Rightarrow> Inr (TypeError_object ''Unknown Type'', self'))
       \<and> (2 \<le> stride \<and> 0 < img_h self \<and> img_h self < 2 ^ 53
            \<and> 0 < img_w self \<and> img_w self < 2 ^ 53
          \<longrightarrow> (\<exists>self'. pooling self kern stride pool_type
                          = Inr (TypeError_object ''Unknown Type'', self')
                     \<and> img_h self' = \<lfloor>of_int (img_h self) / of_int stride :: rat\<rfloor>
                     \<and> img_h self' < img_h self
                     \<and> img_w self' = \<lfloor>of_int (img_w self) / of_int stride :: rat\<rfloor>
                     \<and> img_w self' < img_w self
                     \<and> self' \<noteq> self))"
proof (rule conjI)
  show "pooling self kern stride pool_type
           = (case pooling self kern stride ''max'' of
                Inl e \<Rightarrow> Inl e
              | Inr (l, self') \<Rightarrow> Inr (TypeError_object ''Unknown Type'', self'))"
    using assms by (simp add: pooling_def and_then_def Let_def split: sum.splits)
next
  show "2 \<le> stride \<and> 0 < img_h self \<and> img_h self < 2 ^ 53
            \<and> 0 < img_w self \<and> img_w self < 2 ^ 53
          \<longrightarrow> (\<exists>self'. pooling self kern stride pool_type
                          = Inr (TypeError_object ''Unknown Type'', self')
                     \<and> img_h self' = \<lfloor>of_int (img_h self) / of_int stride :: rat\<rfloor>
                     \<and> img_h self' < img_h self
                     \<and> img_w self' = \<lfloor>of_int (img_w self) / of_int stride :: rat\<rfloor>
                     \<and> img_w self' < img_w self
                     \<and> self' \<noteq> self)"
  proof (rule impI)
    assume b: "2 \<le> stride \<and> 0 < img_h self \<and> img_h self < 2 ^ 53
            \<and> 0 < img_w self \<and> img_w self < 2 ^ 53"
    obtain rh where rh: "true_divide (img_h self) stride = Inr rh"
        "py_int rh = img_h self div stride"
      using true_divide_floor[of "img_h self" stride] b by auto
    obtain rw where rw: "true_divide (img_w self) stride = Inr rw"
        "py_int rw = img_w self div stride"
      using true_divide_floor[of "img_w self" stride] b by auto
    define self' where
      "self' = self\<lparr>img_h := img_h self div stride, img_w := img_w self div stride\<rparr>"
    have h: "img_h self div stride < img_h self"
      using b by (intro int_div_less_self) simp_all
    have w: "img_w self div stride < img_w self"
      using b by (intro int_div_less_self) simp_all
    have r: "pooling self kern stride pool_type
               = Inr (TypeError_object ''Unknown Type'', self')"
      using assms rh rw by (simp add: pooling_def self'_def)
    have d: "img_h self' = img_h self div stride" "img_w self' = img_w self div stride"
      by (simp_all add: self'_def)
    have ne: "self' \<noteq> self"
    proof
      assume "self' = self"
      then have "img_h self' = img_h self" by simp
      then show False using h d by simp
    qed
    show "\<exists>self'. pooling self kern stride pool_type
                          = Inr (TypeError_object ''Unknown Type'', self')
                     \<and> img_h self' = \<lfloor>of_int (img_h self) / of_int stride :: rat\<rfloor>
                     \<and> img_h self' < img_h self
                     \<and> img_w self' = \<lfloor>of_int (img_w self) / of_int stride :: rat\<rfloor>
                     \<and> img_w self' < img_w self
                     \<and> self' \<noteq> self"
      unfolding floor_divide_of_int_eq
      using r d h w ne by (intro exI[of _ self']) simp
  qed
qed

theorem pooling_mutates_before_validation_witness:
  "\<exists>self'. pooling \<lparr>img_h = 28, img_w = 28, last_out = 16\<rparr> 2 2 ''median''
              = Inr (TypeError_object ''Unknown Type'', self')
         \<and> img_h self' = 14 \<and> img_w self' = 14
         \<and> self' \<noteq> \<lparr>img_h = 28, img_w = 28, last_out = 16\<rparr>"
proof -
  have u: "''median'' \<noteq> ''max''" "''median'' \<noteq> ''avg''" "''median'' \<noteq> ''lp''"
    by simp_all
  have g: "(2::int) \<le> 2 \<and> 0 < img_h \<lparr>img_h = 28, img_w = 28, last_out = 16\<rparr>
      \<and> img_h \<lparr>img_h = 28, img_w = 28, last_out = 16\<rparr> < 2 ^ 53
      \<and> 0 < img_w \<lparr>img_h = 28, img_w = 28, last_out = 16\<rparr>
      \<and> img_w \<lparr>img_h = 28, img_w = 28, last_out = 16\<rparr> < 2 ^ 53"
    by simp
  from pooling_mutates_before_validation[OF u, THEN conjunct2, THEN mp, OF g, of 2]
  show ?thesis
    by (auto simp: floor_rat_numeral)
qed

section \<open>The forward pass\<close>

lemma forward_is_pipeline:
  "forward T self x = run_pipeline T (spec_pipeline self) x"
  by (simp add: forward_def spec_pipeline_def run_stage_def and_then_def Let_def
        split: sum.splits)

lemma ConvNet_init_layers:
  assumes "ConvNet_init h w n_classes colour_size = Inr self"
  shows "conv1 self = Conv2d colour_size 16 5 2 \<and> maxPool3 self = MaxPool2d 3 3
       \<and> conv2 self = Conv2d 16 32 5 2 \<and> maxPool2 self = MaxPool2d 2 2
       \<and> flattened self = img_h (dims self) * img_w (dims self) * 32
       \<and> fc1 self = Linear (flattened self) 128 \<and> fc2 self = Linear 128 64
       \<and> fc3 self = Linear 64 32 \<and> fc4 self = Linear 32 n_classes"
  using assms
  by (auto simp: ConvNet_init_def convolution_def pooling_def and_then_def Let_def
        true_divide_5_2 py_int_5_2 split: sum.splits)

lemma ConvNet_init_28:
  "ConvNet_init 28 28 10 1
     = Inr \<lparr>dims = \<lparr>img_h = 4, img_w = 4, last_out = 32\<rparr>,
            conv1 = Conv2d 1 16 5 2, maxPool3 = MaxPool2d 3 3,
            conv2 = Conv2d 16 32 5 2, maxPool2 = MaxPool2d 2 2,
            flattened = 512, fc1 = Linear 512 128, fc2 = Linear 128 64,
            fc3 = Linear 64 32, fc4 = Linear 32 10\<rparr>"
  by (simp add: ConvNet_init_def convolution_def pooling_def float_eval)

text \<open>
  Claim C8. For every input tensor, \<open>ConvNet.forward\<close> is the fixed pipeline
  conv1, pool(3), conv2, pool(2), flatten, fc1, fc2, fc3, fc4, run in that order, with the
  rectified-linear activation applied to the output of each weighted layer except the
  last: after conv1 and conv2 (in front of their pooling) and after fc1, fc2 and fc3;
  the output of fc4 is returned as it is. For a network built by the constructor the
  stages are the layers the constructor makes: kernel-5 convolutions to 16 and 32
  channels, max pooling by 3 and by 2, and linear layers to 128, 64, 32 and \<open>n_classes\<close>.
\<close>

theorem forward_fixed_pipeline:
  "forward T self x = run_pipeline T (spec_pipeline self) x
   \<and> (ConvNet_init h w n_classes colour_size = Inr self \<longrightarrow>
        spec_pipeline self =
          [Layer (Conv2d colour_size 16 5 2), Relu, Layer (MaxPool2d 3 3),
           Layer (Conv2d 16 32 5 2), Relu, Layer (MaxPool2d 2 2),
           Flatten (flattened self),
           Layer (Linear (flattened self) 128), Relu, Layer (Linear 128 64), Relu,
           Layer (Linear 64 32), Relu,
           Layer (Linear 32 n_classes)])"
  using ConvNet_init_layers[of h w n_classes colour_size self]
  by (auto simp: forward_is_pipeline spec_pipeline_def)

theorem forward_fixed_pipeline_witness:
  "ConvNet_init 28 28 10 1
     = Inr \<lparr>dims = \<lparr>img_h = 4, img_w = 4, last_out = 32\<rparr>,
            conv1 = Conv2d 1 16 5 2, maxPool3 = MaxPool2d 3 3,
            conv2 = Conv2d 16 32 5 2, maxPool2 = MaxPool2d 2 2,
            flattened = 512, fc1 = Linear 512 128, fc2 = Linear 128 64,
            fc3 = Linear 64 32, fc4 = Linear 32 10\<rparr>
   \<and> forward \<lparr>call_layer = (\<lambda>l x. Inr (x + 1)), relu = max 0, view = (\<lambda>x n. Inr x)\<rparr>
        \<lparr>dims = \<lparr>img_h = 4, img_w = 4, last_out = 32\<rparr>,
         conv1 = Conv2d 1 16 5 2, maxPool3 = MaxPool2d 3 3,
         conv2 = Conv2d 16 32 5 2, maxPool2 = MaxPool2d 2 2,
         flattened = 512, fc1 = Linear 512 128, fc2 = Linear 128 64,
         fc3 = Linear 64 32, fc4 = Linear 32 10\<rparr> (- 3 :: int)
     = Inr 7"
  using forward_fixed_pipeline
          [of "\<lparr>call_layer = (\<lambda>l x. Inr (x + 1)), relu = max 0,
                view = (\<lambda>x n. Inr x)\<rparr> :: int torch"
              "\<lparr>dims = \<lparr>img_h = 4, img_w = 4, last_out = 32\<rparr>,
                conv1 = Conv2d 1 16 5 2, maxPool3 = MaxPool2d 3 3,
                conv2 = Conv2d 16 32 5 2, maxPool2 = MaxPool2d 2 2,
                flattened = 512, fc1 = Linear 512 128, fc2 = Linear 128 64,
                fc3 = Linear 64 32, fc4 = Linear 32 10\<rparr>"
              "- 3 :: int" 28 28 10 1]
    ConvNet_init_28
  by (simp add: run_stage_def call_def)

text \<open>
  Read with the activation after the pooling and flatten stages as well, the pipeline
  is still what \<open>forward\<close> computes, as soon as those stages keep a tensor that the
  activation leaves alone (a tensor without negative entries) that way: the additional
  activations then change nothing.
\<close>

lemma forward_relu_after_every_stage:
  assumes "\<And>x y. call T (maxPool3 self) (relu T x) = Inr y \<Longrightarrow> relu T y = y"
    and "\<And>x y. call T (maxPool2 self) (relu T x) = Inr y \<Longrightarrow> relu T y = y"
    and "\<And>x y. relu T x = x \<Longrightarrow> view T x (flattened self) = Inr y \<Longrightarrow> relu T y = y"
  shows "forward T self x = run_pipeline T (literal_pipeline self) x"
proof (cases "call T (conv1 self) x")
  case (Inl e)
  then show ?thesis
    by (simp add: forward_def literal_pipeline_def run_stage_def)
next
  case x1: (Inr x1)
  show ?thesis
  proof (cases "call T (maxPool3 self) (relu T x1)")
    case (Inl e)
    then show ?thesis
      using x1 by (simp add: forward_def literal_pipeline_def run_stage_def)
  next
    case x2: (Inr x2)
    have r2: "relu T x2 = x2" using assms(1) x2 by blast
    show ?thesis
    proof (cases "call T (conv2 self) x2")
      case (Inl e)
      then show ?thesis
        using x1 x2 r2 by (simp add: forward_def literal_pipeline_def run_stage_def)
    next
      case x3: (Inr x3)
      show ?thesis
      proof (cases "call T (maxPool2 self) (relu T x3)")
        case (Inl e)
        then show ?thesis
          using x1 x2 r2 x3 by (simp add: forward_def literal_pipeline_def run_stage_def)
      next
        case x4: (Inr x4)
        have r4: "relu T x4 = x4" using assms(2) x4 by blast
        show ?thesis
        proof (cases "view T x4 (flattened self)")
          case (Inl e)
          then show ?thesis
            using x1 x2 r2 x3 x4 r4
            by (simp add: forward_def literal_pipeline_def run_stage_def)
        next
          case x5: (Inr x5)
          have r5: "relu T x5 = x5" using assms(3) r4 x5 by blast
          show ?thesis
            using x1 x2 r2 x3 x4 r4 x5 r5
            by (simp add: forward_def literal_pipeline_def run_stage_def and_then_def Let_def
                  split: sum.splits)
        qed
      qed
    qed
  qed
qed

section \<open>The training loop\<close>

lemma for_each_append:
  "for_each body (xs @ ys) s = and_then (for_each body xs s) (for_each body ys)"
  by (induction xs arbitrary: s) (auto simp: and_then_def split: sum.splits)

lemma and_then_eq_Inr:
  "and_then m f = Inr y \<longleftrightarrow> (\<exists>x. m = Inr x \<and> f x = Inr y)"
  by (cases m) simp_all

lemma train_batch_step:
  "train_batch T due (model, acc, cnt) (i, b)
     = and_then (due (int i)) (\<lambda>_.
         Inr (snd (train_step T model b), add_loss T acc (fst (train_step T model b)), cnt + 1))"
  by (simp add: train_batch_def split: prod.splits)

text \<open>One pass of the inner loop: what it leaves when it ends without an exception.\<close>

lemma inner_loop_result:
  assumes "for_each (train_batch T due) (enumerate i batches) (model, acc, cnt)
             = Inr (model', acc', cnt')"
  shows "model' = pass_model T model batches
       \<and> acc' = foldl (add_loss T) acc (pass_losses T model batches)"
  using assms
proof (induction batches arbitrary: i model acc cnt)
  case Nil
  then show ?case by simp
next
  case (Cons b bs)
  obtain l m1 where st: "train_step T model b = (l, m1)" by (cases "train_step T model b")
  from Cons.prems
  have "for_each (train_batch T due) (enumerate (Suc i) bs) (m1, add_loss T acc l, cnt + 1)
          = Inr (model', acc', cnt')"
    by (auto simp: train_batch_step st and_then_eq_Inr)
  from Cons.IH[OF this] show ?case by (simp add: st)
qed

text \<open>The inner loop ends without an exception when the two tests never raise.\<close>

lemma inner_loop_total:
  assumes "\<forall>j. \<exists>p. due j = Inr p"
  shows "\<exists>cnt'. for_each (train_batch T due) (enumerate i batches) (model, acc, cnt)
           = Inr (pass_model T model batches,
                  foldl (add_loss T) acc (pass_losses T model batches), cnt')"
proof (induction batches arbitrary: i model acc cnt)
  case Nil
  then show ?case by simp
next
  case (Cons b bs)
  obtain l m1 where st: "train_step T model b = (l, m1)" by (cases "train_step T model b")
  obtain p where p: "due (int i) = Inr p" using assms by blast
  from Cons.IH[of "Suc i" m1 "add_loss T acc l" "cnt + 1"]
  show ?case by (simp add: train_batch_step st p)
qed

lemma train_epoch_result:
  assumes "train_epoch T data_loader pe ps (model, acc0) epoch = Inr (model', acc')"
  shows "model' = pass_model T model (dl_iter data_loader epoch)
       \<and> acc' = foldl (add_loss T) (zero_loss T)
                   (pass_losses T model (dl_iter data_loader epoch))"
proof -
  from assms obtain cnt' where
    "for_each
       (train_batch T (print_due (int epoch) pe (int (dl_len data_loader)) ps))
       (enumerate 0 (dl_iter data_loader epoch)) (model, zero_loss T, 0)
     = Inr (model', acc', cnt')"
    by (auto simp: train_epoch_def and_then_eq_Inr)
  then show ?thesis by (rule inner_loop_result)
qed

lemma train_epoch_total:
  assumes "\<forall>j. \<exists>p. print_due (int epoch) pe (int (dl_len data_loader)) ps j = Inr p"
  shows "train_epoch T data_loader pe ps (model, acc0) epoch
           = Inr (pass_model T model (dl_iter data_loader epoch),
                  foldl (add_loss T) (zero_loss T)
                    (pass_losses T model (dl_iter data_loader epoch)))"
proof -
  obtain cnt' where
    "for_each
       (train_batch T (print_due (int epoch) pe (int (dl_len data_loader)) ps))
       (enumerate 0 (dl_iter data_loader epoch)) (model, zero_loss T, 0)
     = Inr (pass_model T model (dl_iter data_loader epoch),
            foldl (add_loss T) (zero_loss T)
              (pass_losses T model (dl_iter data_loader epoch)), cnt')"
    using inner_loop_total[OF assms, where T = T and i = 0 and model = model
        and batches = "dl_iter data_loader epoch" and acc = "zero_loss T" and cnt = 0]
    by (elim exE)
  then show ?thesis by (simp add: train_epoch_def)
qed

text \<open>
  The outer loop over the first \<open>n\<close> epochs: the model has gone through all of them, the
  accumulator holds the losses of epoch \<open>n - 1\<close> alone.
\<close>

lemma outer_loop_result:
  assumes "for_each (train_epoch T data_loader pe ps) [0..<n] (model, acc0)
             = Inr (model', acc')"
  shows "model' = model_after T data_loader n model
       \<and> (0 < n \<longrightarrow>
            acc' = foldl (add_loss T) (zero_loss T)
                     (pass_losses T (model_after T data_loader (n - 1) model)
                        (dl_iter data_loader (n - 1))))"
  using assms
proof (induction n arbitrary: model' acc')
  case 0
  then show ?case by simp
next
  case (Suc n)
  from Suc.prems obtain m1 a1 where
    first: "for_each (train_epoch T data_loader pe ps) [0..<n] (model, acc0) = Inr (m1, a1)"
    and last: "train_epoch T data_loader pe ps (m1, a1) n = Inr (model', acc')"
    by (auto simp: for_each_append and_then_eq_Inr)
  have "m1 = model_after T data_loader n model"
    using Suc.IH[OF first] by simp
  with train_epoch_result[OF last] show ?case by simp
qed

lemma outer_loop_total:
  assumes "\<forall>epoch j. \<exists>p. print_due (int epoch) pe (int (dl_len data_loader)) ps j = Inr p"
  shows "\<exists>acc'. for_each (train_epoch T data_loader pe ps) [0..<n] (model, acc0)
                   = Inr (model_after T data_loader n model, acc')"
proof (induction n)
  case 0
  then show ?case by simp
next
  case (Suc n)
  then obtain a1 where
    "for_each (train_epoch T data_loader pe ps) [0..<n] (model, acc0)
       = Inr (model_after T data_loader n model, a1)"
    by blast
  then show ?case
    using assms by (simp add: for_each_append train_epoch_total)
qed

lemma print_due_total:
  assumes "pe \<noteq> 0" "true_divide n ps = Inr q" "py_int q \<noteq> 0"
  shows "\<exists>p. print_due epoch pe n ps j = Inr p"
  using assms by (auto simp: print_due_def)

text \<open>
  Claim C2. For \<open>n_epochs \<ge> 1\<close>, whenever \<open>train_model\<close> returns, the value it returns is
  the sum of the loss values of the batches of the last epoch alone (\<open>mean_loss\<close> starts
  again from \<open>0\<close> in every epoch), divided by \<open>n_total_steps = len(data_loader)\<close> and not
  by the number of batches the last epoch went through. It does return (the only
  exceptions are the \<open>ZeroDivisionError\<close>s of the progress tests and of the final
  division) when \<open>print_epochs\<close> is not \<open>0\<close>, the loader is not empty and
  \<open>int(n_total_steps / print_steps)\<close> is defined and not \<open>0\<close>.
\<close>

theorem train_model_returns_last_epoch_mean:
  assumes "1 \<le> n_epochs"
  shows "(\<forall>loss model'.
            train_model T model data_loader n_epochs print_steps print_epochs
              = Inr (loss, model')
            \<longrightarrow> loss = div_loss T (last_epoch_loss_sum T model data_loader n_epochs)
                           (int (dl_len data_loader))
                \<and> model' = model_after T data_loader (nat n_epochs) model)
       \<and> (print_epochs \<noteq> Some 0 \<and> dl_len data_loader \<noteq> 0
            \<and> (\<exists>q. true_divide (int (dl_len data_loader)) print_steps = Inr q \<and> py_int q \<noteq> 0)
          \<longrightarrow> train_model T model data_loader n_epochs print_steps print_epochs
                = Inr (div_loss T (last_epoch_loss_sum T model data_loader n_epochs)
                         (int (dl_len data_loader)),
                       model_after T data_loader (nat n_epochs) model))"
proof -
  define pe where "pe = (case print_epochs of None \<Rightarrow> n_epochs | Some p \<Rightarrow> p)"
  have n: "0 < nat n_epochs" using assms by simp
  have result: "loss = div_loss T (last_epoch_loss_sum T model data_loader n_epochs)
                         (int (dl_len data_loader))
              \<and> model' = model_after T data_loader (nat n_epochs) model"
    if "train_model T model data_loader n_epochs print_steps print_epochs = Inr (loss, model')"
    for loss model'
  proof -
    from that obtain acc' where
      loop: "for_each (train_epoch T data_loader pe print_steps) [0..<nat n_epochs]
               (model, zero_loss T) = Inr (model', acc')"
      and fin: "loss = div_loss T acc' (int (dl_len data_loader))"
      by (auto simp: train_model_def Let_def pe_def and_then_eq_Inr split: if_splits)
    from outer_loop_result[OF loop] n fin show ?thesis
      by (simp add: last_epoch_loss_sum_def Let_def)
  qed
  have total: "train_model T model data_loader n_epochs print_steps print_epochs
                = Inr (div_loss T (last_epoch_loss_sum T model data_loader n_epochs)
                         (int (dl_len data_loader)),
                       model_after T data_loader (nat n_epochs) model)"
    if g: "print_epochs \<noteq> Some 0 \<and> dl_len data_loader \<noteq> 0
            \<and> (\<exists>q. true_divide (int (dl_len data_loader)) print_steps = Inr q \<and> py_int q \<noteq> 0)"
  proof -
    have "pe \<noteq> 0" using g assms by (auto simp: pe_def split: option.splits)
    with g have "\<forall>epoch j. \<exists>p.
        print_due (int epoch) pe (int (dl_len data_loader)) print_steps j = Inr p"
      by (auto intro: print_due_total)
    from outer_loop_total[OF this, where T = T and n = "nat n_epochs" and model = model
        and ?acc0.0 = "zero_loss T"]
    obtain acc' where
      loop: "for_each (train_epoch T data_loader pe print_steps) [0..<nat n_epochs]
               (model, zero_loss T)
             = Inr (model_after T data_loader (nat n_epochs) model, acc')"
      by (elim exE)
    then have tm: "train_model T model data_loader n_epochs print_steps print_epochs
                 = Inr (div_loss T acc' (int (dl_len data_loader)),
                        model_after T data_loader (nat n_epochs) model)"
      using g by (simp add: train_model_def Let_def pe_def)
    from result[OF tm] have "div_loss T acc' (int (dl_len data_loader))
        = div_loss T (last_epoch_loss_sum T model data_loader n_epochs)
            (int (dl_len data_loader))"
      by (rule conjunct1)
    with tm show ?thesis by (simp only:)
  qed
  show ?thesis
  proof (rule conjI)
    show "\<forall>loss model'.
            train_model T model data_loader n_epochs print_steps print_epochs
              = Inr (loss, model')
            \<longrightarrow> loss = div_loss T (last_epoch_loss_sum T model data_loader n_epochs)
                           (int (dl_len data_loader))
                \<and> model' = model_after T data_loader (nat n_epochs) model"
    proof (intro allI impI)
      fix loss model'
      assume "train_model T model data_loader n_epochs print_steps print_epochs
                = Inr (loss, model')"
      then show "loss = div_loss T (last_epoch_loss_sum T model data_loader n_epochs)
                           (int (dl_len data_loader))
                \<and> model' = model_after T data_loader (nat n_epochs) model"
        by (rule result)
    qed
  next
    show "print_epochs \<noteq> Some 0 \<and> dl_len data_loader \<noteq> 0
            \<and> (\<exists>q. true_divide (int (dl_len data_loader)) print_steps = Inr q \<and> py_int q \<noteq> 0)
          \<longrightarrow> train_model T model data_loader n_epochs print_steps print_epochs
                = Inr (div_loss T (last_epoch_loss_sum T model data_loader n_epochs)
                         (int (dl_len data_loader)),
                       model_after T data_loader (nat n_epochs) model)"
    proof (rule impI)
      assume "print_epochs \<noteq> Some 0 \<and> dl_len data_loader \<noteq> 0
            \<and> (\<exists>q. true_divide (int (dl_len data_loader)) print_steps = Inr q \<and> py_int q \<noteq> 0)"
      then show "train_model T model data_loader n_epochs print_steps print_epochs
                = Inr (div_loss T (last_epoch_loss_sum T model data_loader n_epochs)
                         (int (dl_len data_loader)),
                       model_after T data_loader (nat n_epochs) model)"
        by (rule total)
    qed
  qed
qed

text \<open>
  A run of two epochs over a loader of two batches, with the default \<open>print_steps = 1\<close>
  and \<open>print_epochs = 1\<close>. The model is a number that every step lowers by one, the loss
  of a batch is the batch plus the model. The losses are \<open>10, 19\<close> in the first epoch and
  \<open>8, 17\<close> in the second; the value is \<open>(8 + 17) / 2\<close>.
\<close>

theorem train_model_returns_last_epoch_mean_witness:
  "train_model
     \<lparr>train_step = (\<lambda>model batch. (of_int (batch + model), model - 1)),
      add_loss = (+), div_loss = (\<lambda>x n. x / of_int n), zero_loss = (0::rat)\<rparr>
     (0::int) \<lparr>dl_len = 2, dl_iter = (\<lambda>k. [10, 20])\<rparr> 2 1 (Some 1)
   = Inr (25 / 2, - 4)"
proof -
  define T :: "(int, int, rat) trainer" where
    "T = \<lparr>train_step = (\<lambda>model batch. (of_int (batch + model), model - 1)),
          add_loss = (+), div_loss = (\<lambda>x n. x / of_int n), zero_loss = 0\<rparr>"
  define dl :: "int data_loader" where "dl = \<lparr>dl_len = 2, dl_iter = (\<lambda>k. [10, 20])\<rparr>"
  have e: "(1::int) \<le> 2" by simp
  have "true_divide (int (dl_len dl)) 1 = Inr 2"
    using true_divide_one[of 2] by (simp add: dl_def)
  then have g: "Some (1::int) \<noteq> Some 0 \<and> dl_len dl \<noteq> 0
      \<and> (\<exists>q. true_divide (int (dl_len dl)) 1 = Inr q \<and> py_int q \<noteq> 0)"
    by (simp add: dl_def py_int_def)
  have "train_model T 0 dl 2 1 (Some 1)
          = Inr (div_loss T (last_epoch_loss_sum T 0 dl 2) (int (dl_len dl)),
                 model_after T dl (nat 2) 0)"
    by (rule train_model_returns_last_epoch_mean[OF e, THEN conjunct2, THEN mp, OF g])
  moreover have "last_epoch_loss_sum T 0 dl 2 = 25"
    by (simp add: last_epoch_loss_sum_def T_def dl_def)
  moreover have "model_after T dl (nat 2) 0 = - 4"
    by (simp add: T_def dl_def eval_nat_numeral)
  ultimately show ?thesis
    by (simp add: T_def dl_def)
qed

section \<open>Checkpoints\<close>

lemma load_checkpoint_None:
  "load_checkpoint E fs model dev None = Inr (model\<lparr>location := dev\<rparr>)"
  by (simp add: load_checkpoint_def)

lemma load_checkpoint_plain_device:
  assumes "dev = Device ''cuda'' None \<or> dev = Device ''mps'' None \<or> dev = Device ''cpu'' None"
  shows "load_checkpoint E fs model dev (Some save_path)
           = and_then (load_state_dict E fs model save_path) (\<lambda>model.
               Inr (model\<lparr>location := dev\<rparr>))"
  using assms by (auto simp: load_checkpoint_def)

text \<open>
  On the three devices that \<open>load_model\<close> tests for, saving and loading does restore the
  saved parameters in a model of the same architecture, and with them the predictions.
\<close>

lemma checkpoint_round_trip_plain_device:
  assumes "dev = Device ''cuda'' None \<or> dev = Device ''mps'' None \<or> dev = Device ''cpu'' None"
    and "same_arch E (state_dict other) (state_dict model)"
  shows "load_checkpoint E (save_model fs model save_path) other dev (Some save_path)
           = Inr (other\<lparr>state_dict := state_dict model, location := dev\<rparr>)"
  using assms(2)
  by (simp add: load_checkpoint_plain_device[OF assms(1)] load_state_dict_def save_model_def)

text \<open>
  Claim C7, at the input where the code departs from it. A model with parameters
  \<open>[1, 2]\<close> is saved to \<open>ckpt.pt\<close>; \<open>load_model\<close> is then run with
  \<open>device = torch.device('cuda:0')\<close> and \<open>save_path = 'ckpt.pt'\<close> on a model of the same
  architecture whose parameters are \<open>[0, 0]\<close>. None of the three tests on the device
  holds, nothing is loaded, and the model keeps \<open>[0, 0]\<close>: its prediction on the input
  \<open>5\<close> is \<open>0\<close> where the saved model predicts \<open>1\<close>. (Here a prediction is \<open>1\<close> when the
  sum of the parameters times the input is positive, and two states fit the same
  architecture when they have the same length.)
\<close>

theorem round_trip_lost_on_indexed_device:
  "load_checkpoint
     \<lparr>predict = (\<lambda>p x. if 0 < sum_list p * x then 1 else 0),
      same_arch = (\<lambda>p q. length p = length q),
      pixel_key = (\<lambda>x. ''''), percent = (\<lambda>c n. 100 * of_int c / of_int n :: rat)\<rparr>
     (save_model Map.empty \<lparr>state_dict = [1, 2], location = Device ''cpu'' None\<rparr> ''ckpt.pt'')
     \<lparr>state_dict = [0, 0], location = Device ''cpu'' None\<rparr>
     (Device ''cuda'' (Some 0)) (Some ''ckpt.pt'')
   = Inr \<lparr>state_dict = [0, 0 :: int], location = Device ''cuda'' (Some 0)\<rparr>
   \<and> predict
       \<lparr>predict = (\<lambda>p x. if 0 < sum_list p * x then 1 else 0),
        same_arch = (\<lambda>p q. length p = length q),
        pixel_key = (\<lambda>x. ''''), percent = (\<lambda>c n. 100 * of_int c / of_int n :: rat)\<rparr>
       [0, 0] (5 :: int) = 0
   \<and> predict
       \<lparr>predict = (\<lambda>p x. if 0 < sum_list p * x then 1 else 0),
        same_arch = (\<lambda>p q. length p = length q),
        pixel_key = (\<lambda>x. ''''), percent = (\<lambda>c n. 100 * of_int c / of_int n :: rat)\<rparr>
       [1, 2] (5 :: int) = 1"
  by (simp add: load_checkpoint_def)

text \<open>
  Claim C9. When \<open>load_model\<close> is called with a \<open>save_path\<close> and a device that is none of
  \<open>torch.device('cuda')\<close>, \<open>torch.device('mps')\<close>, \<open>torch.device('cpu')\<close>, the checkpoint
  is not read at all (not even a missing file is noticed): the parameters stay as they
  are, the model is only moved to the device, and the whole call does what the call
  without \<open>save_path\<close> does.
\<close>

theorem load_model_skips_checkpoint_on_other_devices:
  assumes "dev \<noteq> Device ''cuda'' None" "dev \<noteq> Device ''mps'' None"
    "dev \<noteq> Device ''cpu'' None"
  shows "load_checkpoint E fs model dev (Some save_path) = Inr (model\<lparr>location := dev\<rparr>)
       \<and> load_model E fs model batches classification dev (Some save_path)
            class_results show_wrongs n_wrongs
           = load_model E fs model batches classification dev None
               class_results show_wrongs n_wrongs
       \<and> (\<forall>accuracy model'.
            load_model E fs model batches classification dev (Some save_path)
              class_results show_wrongs n_wrongs = Inr (accuracy, model')
            \<longrightarrow> state_dict model' = state_dict model)"
proof -
  have c: "load_checkpoint E fs model dev (Some save_path) = Inr (model\<lparr>location := dev\<rparr>)"
    using assms by (simp add: load_checkpoint_def)
  have e: "load_model E fs model batches classification dev (Some save_path)
            class_results show_wrongs n_wrongs
           = load_model E fs model batches classification dev None
               class_results show_wrongs n_wrongs"
    by (simp only: load_model_def c load_checkpoint_None)
  have k: "\<forall>accuracy model'.
            load_model E fs model batches classification dev (Some save_path)
              class_results show_wrongs n_wrongs = Inr (accuracy, model')
            \<longrightarrow> state_dict model' = state_dict model"
  proof (intro allI impI)
    fix accuracy model'
    assume "load_model E fs model batches classification dev (Some save_path)
              class_results show_wrongs n_wrongs = Inr (accuracy, model')"
    then show "state_dict model' = state_dict model"
      by (auto simp: load_model_def c and_then_eq_Inr Let_def split: if_splits)
  qed
  from c e k show ?thesis by (intro conjI)
qed

theorem load_model_skips_checkpoint_on_other_devices_witness:
  "load_checkpoint
     \<lparr>predict = (\<lambda>p x. if 0 < sum_list p * x then 1 else 0),
      same_arch = (\<lambda>p q. length p = length q),
      pixel_key = (\<lambda>x. ''''), percent = (\<lambda>c n. 100 * of_int c / of_int n :: rat)\<rparr>
     [''ckpt.pt'' \<mapsto> [1, 2]]
     \<lparr>state_dict = [0, 0], location = Device ''cpu'' None\<rparr>
     (Device ''cuda'' (Some 0)) (Some ''ckpt.pt'')
   = Inr \<lparr>state_dict = [0, 0 :: int], location = Device ''cuda'' (Some 0)\<rparr>"
proof -
  define E :: "(int list, int, rat) evaluator" where
    "E = \<lparr>predict = (\<lambda>p x. if 0 < sum_list p * x then 1 else 0),
          same_arch = (\<lambda>p q. length p = length q),
          pixel_key = (\<lambda>x. ''''), percent = (\<lambda>c n. 100 * of_int c / of_int n)\<rparr>"
  define model :: "int list nn_module" where
    "model = \<lparr>state_dict = [0, 0], location = Device ''cpu'' None\<rparr>"
  have d: "Device ''cuda'' (Some 0) \<noteq> Device ''cuda'' None"
      "Device ''cuda'' (Some 0) \<noteq> Device ''mps'' None"
      "Device ''cuda'' (Some 0) \<noteq> Device ''cpu'' None"
    by simp_all
  have "load_checkpoint E [''ckpt.pt'' \<mapsto> [1, 2]] model (Device ''cuda'' (Some 0))
          (Some ''ckpt.pt'')
        = Inr (model\<lparr>location := Device ''cuda'' (Some 0)\<rparr>)"
    by (rule load_model_skips_checkpoint_on_other_devices[OF d, THEN conjunct1])
  then show ?thesis by (simp add: E_def model_def)
qed

section \<open>The accuracy report\<close>

text \<open>
  A loop whose body can only fail in one way fails in that way as soon as one of its
  elements makes the body fail.
\<close>

lemma for_each_fails:
  assumes "x \<in> set xs"
    and "\<And>s. body s x = Inl e"
    and "\<And>s y. y \<in> set xs \<Longrightarrow> body s y = Inl e \<or> (\<exists>s'. body s y = Inr s')"
  shows "for_each body xs s = Inl e"
  using assms
proof (induction xs arbitrary: s)
  case Nil
  then show ?case by simp
next
  case (Cons y ys)
  show ?case
  proof (cases "body s y")
    case (Inl e')
    then have "e' = e" using Cons.prems(3)[of y s] by auto
    with Inl show ?thesis by simp
  next
    case (Inr s')
    then have "y \<noteq> x" using Cons.prems(2)[of s] by auto
    then have "x \<in> set ys" using Cons.prems(1) by simp
    then have "for_each body ys s' = Inl e"
      using Cons.prems(2,3) by (intro Cons.IH) auto
    with Inr show ?thesis by simp
  qed
qed

lemma for_each_invariant:
  assumes "for_each body xs s = Inr s'" "P s"
    and "\<And>s x s1. x \<in> set xs \<Longrightarrow> P s \<Longrightarrow> body s x = Inr s1 \<Longrightarrow> P s1"
  shows "P s'"
  using assms
proof (induction xs arbitrary: s)
  case Nil
  then show ?case by simp
next
  case (Cons y ys)
  from Cons.prems(1) obtain s1 where
    s1: "body s y = Inr s1" and rest: "for_each body ys s1 = Inr s'"
    by (auto simp: and_then_eq_Inr)
  have "P s1" using Cons.prems(3)[of y s s1] Cons.prems(2) s1 by simp
  with rest show ?case using Cons.prems(3) by (intro Cons.IH[of s1]) auto
qed

text \<open>
  The two per-class lists keep the length \<open>n_classes\<close> they are created with, so the
  index of the report loop is always in range; and a class that no label of the
  evaluation set denotes keeps its count of \<open>0\<close>.
\<close>

lemma list_incr_keeps:
  assumes "list_incr xs l = Inr ys"
  shows "length ys = length xs \<and> (py_index (length xs) l \<noteq> Some i \<longrightarrow> ys ! i = xs ! i)"
  using assms by (auto simp: list_incr_def split: option.splits)

lemma count_sample_keeps:
  assumes "count_sample E classification show_wrongs n_wrongs t ((x, l), pr) = Inr t'"
  shows "length (n_class_samples t') = length (n_class_samples t)
       \<and> (py_index (length (n_class_samples t)) l \<noteq> Some i
            \<longrightarrow> n_class_samples t' ! i = n_class_samples t ! i)"
  using assms list_incr_keeps
  by (fastforce simp: count_sample_def and_then_eq_Inr Let_def split: if_splits)

lemma count_batch_keeps:
  assumes "count_batch E p classification show_wrongs n_wrongs t batch = Inr t'"
    and "length (n_class_samples t) = n"
    and "\<forall>(x, l) \<in> set batch. py_index n l \<noteq> Some i"
  shows "length (n_class_samples t') = n \<and> n_class_samples t' ! i = n_class_samples t ! i"
proof -
  define c where "c = n_class_samples t ! i"
  define P :: "tallies \<Rightarrow> bool" where
    "P = (\<lambda>u. length (n_class_samples u) = n \<and> n_class_samples u ! i = c)"
  define predicted where "predicted = map (\<lambda>(img, label). predict E p img) batch"
  define t0 where
    "t0 = t\<lparr>n_samples := n_samples t + int (length batch),
             n_correct := n_correct t
               + int (length (filter (\<lambda>((img, label), pred). pred = label)
                                (zip batch predicted)))\<rparr>"
  have fe: "for_each (count_sample E classification show_wrongs n_wrongs)
              (zip batch predicted) t0 = Inr t'"
    using assms(1) by (simp add: count_batch_def Let_def predicted_def t0_def)
  have P0: "P t0" using assms(2) by (simp add: P_def c_def t0_def)
  have step: "P u'"
    if "smp \<in> set (zip batch predicted)" "P u"
      "count_sample E classification show_wrongs n_wrongs u smp = Inr u'"
    for u smp u'
  proof -
    obtain x l pr where smp: "smp = ((x, l), pr)"
      by (cases smp) (auto simp: split_paired_all)
    from that(1) have "(x, l) \<in> set batch"
      unfolding smp by (rule set_zip_leftD)
    with assms(3) have ni: "py_index n l \<noteq> Some i" by auto
    have len: "length (n_class_samples u) = n" using that(2) by (simp add: P_def)
    from that(3) have "count_sample E classification show_wrongs n_wrongs u ((x, l), pr) = Inr u'"
      by (simp only: smp)
    from count_sample_keeps[OF this, of i] ni len that(2) show ?thesis
      by (simp add: P_def)
  qed
  have "P t'" by (rule for_each_invariant[where P = P, OF fe P0 step])
  then show ?thesis by (simp add: P_def c_def)
qed

lemma tally_zero_samples:
  assumes "tally E p classification show_wrongs n_wrongs batches = Inr t"
    and "i < length classification"
    and "\<forall>batch \<in> set batches. \<forall>(x, l) \<in> set batch. py_index (length classification) l \<noteq> Some i"
  shows "length (n_class_samples t) = length classification \<and> n_class_samples t ! i = 0"
proof -
  define P :: "tallies \<Rightarrow> bool" where
    "P = (\<lambda>u. length (n_class_samples u) = length classification \<and> n_class_samples u ! i = 0)"
  define t0 where
    "t0 = \<lparr>n_correct = 0, n_samples = 0,
           n_class_correct = replicate (length classification) 0,
           n_class_samples = replicate (length classification) 0, wrongs = []\<rparr>"
  have fe: "for_each (count_batch E p classification show_wrongs n_wrongs) batches t0 = Inr t"
    using assms(1) by (simp add: tally_def Let_def t0_def)
  have P0: "P t0" using assms(2) by (simp add: P_def t0_def)
  have step: "P u'"
    if "batch \<in> set batches" "P u"
      "count_batch E p classification show_wrongs n_wrongs u batch = Inr u'"
    for u batch u'
  proof -
    have len: "length (n_class_samples u) = length classification"
      using that(2) by (simp add: P_def)
    have no: "\<forall>(x, l) \<in> set batch. py_index (length classification) l \<noteq> Some i"
      using assms(3) that(1) by (rule bspec)
    from count_batch_keeps[OF that(3) len no] that(2) show ?thesis
      by (simp add: P_def)
  qed
  have "P t" by (rule for_each_invariant[where P = P, OF fe P0 step])
  then show ?thesis by (simp add: P_def)
qed

text \<open>
  Claim C4. When some class index \<open>i < len(classification)\<close> has
  \<open>n_class_samples[i] = 0\<close>, the per-class accuracy computation of lines 117 to 119
  divides by zero and fails with \<open>ZeroDivisionError\<close>; so does the call of \<open>load_model\<close>
  with \<open>class_results\<close> enabled whose evaluation loop ends with these counts.
\<close>

theorem per_class_accuracy_division_by_zero:
  assumes "i < length classification" "n_class_samples t ! i = 0"
  shows "class_accuracies E classification t = Inl ZeroDivisionError
       \<and> (load_checkpoint E fs model dev save_path = Inr model'
            \<and> tally E (state_dict model') classification show_wrongs n_wrongs batches = Inr t
          \<longrightarrow> load_model E fs model batches classification dev save_path
                  True show_wrongs n_wrongs = Inl ZeroDivisionError)"
proof -
  have ca: "class_accuracies E classification t = Inl ZeroDivisionError"
    unfolding class_accuracies_def
  proof (rule for_each_fails[of i])
    show "i \<in> set [0..<length classification]" using assms(1) by simp
    show "class_accuracy E t s i = Inl ZeroDivisionError" for s
      using assms(2) by (simp add: class_accuracy_def)
    show "class_accuracy E t s y = Inl ZeroDivisionError
          \<or> (\<exists>s'. class_accuracy E t s y = Inr s')" for s y
      by (simp add: class_accuracy_def)
  qed
  have "load_model E fs model batches classification dev save_path True show_wrongs n_wrongs
          = Inl ZeroDivisionError"
    if "load_checkpoint E fs model dev save_path = Inr model'"
      "tally E (state_dict model') classification show_wrongs n_wrongs batches = Inr t"
    using that ca by (simp add: load_model_def)
  with ca show ?thesis by blast
qed

text \<open>
  Two classes, one batch with a single sample of class \<open>0\<close> that is predicted right:
  the counts are \<open>[1, 0]\<close>, the overall accuracy is computed, and the report fails at
  class \<open>1\<close>.
\<close>

theorem per_class_accuracy_division_by_zero_witness:
  "load_model
     \<lparr>predict = (\<lambda>p x. 0), same_arch = (\<lambda>p q. True), pixel_key = (\<lambda>x. ''''),
      percent = (\<lambda>c n. 100 * of_int c / of_int n :: rat)\<rparr>
     Map.empty \<lparr>state_dict = (), location = Device ''cpu'' None\<rparr>
     [[(7 :: int, 0)]] [''cat'', ''dog''] (Device ''cpu'' None) None True False 5
   = Inl ZeroDivisionError"
proof -
  define E :: "(unit, int, rat) evaluator" where
    "E = \<lparr>predict = (\<lambda>p x. 0), same_arch = (\<lambda>p q. True), pixel_key = (\<lambda>x. ''''),
          percent = (\<lambda>c n. 100 * of_int c / of_int n)\<rparr>"
  define model :: "unit nn_module" where
    "model = \<lparr>state_dict = (), location = Device ''cpu'' None\<rparr>"
  define t where
    "t = \<lparr>n_correct = 1, n_samples = 1, n_class_correct = [1, 0],
          n_class_samples = [1, 0], wrongs = []\<rparr>"
  have i: "(1::nat) < length [''cat'', ''dog'']" by simp
  have z: "n_class_samples t ! 1 = 0" by (simp add: t_def)
  have c: "load_checkpoint E Map.empty model (Device ''cpu'' None) None = Inr model"
    by (simp add: load_checkpoint_def model_def)
  have y: "tally E (state_dict model) [''cat'', ''dog''] False 5 [[(7, 0)]] = Inr t"
    by (simp add: tally_def count_batch_def count_sample_def list_incr_def py_index_def
          E_def t_def eval_nat_numeral)
  have "load_model E Map.empty model [[(7, 0)]] [''cat'', ''dog''] (Device ''cpu'' None) None
          True False 5 = Inl ZeroDivisionError"
    using per_class_accuracy_division_by_zero[OF i z, THEN conjunct2, THEN mp, of E Map.empty
        model "Device ''cpu'' None" None model False 5 "[[(7, 0)]]"] c y
    by blast
  then show ?thesis by (simp add: E_def model_def)
qed

end
